theory Spec2Isabelle
  imports Complex_Main
begin

section \<open>CurveAnimator: Catmull-Rom spline animation with an arc-length table\<close>

text \<open>
  A shallow embedding of \<^verbatim>\<open>src/curve-animator.js\<close>.

  Numbers. A JavaScript Number is modelled as a real: rounding and overflow of IEEE
  doubles are not part of the model. The two operators of the source that can produce
  NaN or an infinity from real operands, \<^verbatim>\<open>/\<close> and \<^verbatim>\<open>%\<close> with a zero
  right operand, are partial in the model (\<open>js_div\<close>, \<open>js_rem\<close>); a run that
  evaluates one of them at zero leaves the model with the outcome \<open>NonFinite\<close>.

  Arrays. Reading a JavaScript array outside its bounds gives \<^verbatim>\<open>undefined\<close>, and
  reading a property of \<^verbatim>\<open>undefined\<close> throws a TypeError: \<open>js_index\<close> gives
  \<open>None\<close> out of range and every reader turns \<open>None\<close> into \<open>TypeError\<close>.

  Errors. \<open>TypeError\<close> is the only exception the source can throw. \<open>NonFinite\<close>
  is the outcome described above. \<open>InvalidConfiguration\<close> is the dedicated error the
  spec names for a rejected construction; the source has no statement that throws it, and
  no definition below returns it.
\<close>

subsection \<open>Numbers, arrays and vectors\<close>

datatype error = TypeError | NonFinite | InvalidConfiguration

definition js_index :: "'a list \<Rightarrow> int \<Rightarrow> 'a option" where
  "js_index xs k = (if 0 \<le> k \<and> k < int (length xs) then Some (xs ! nat k) else None)"

definition js_div :: "real \<Rightarrow> real \<Rightarrow> real option" where
  "js_div a b = (if b = 0 then None else Some (a / b))"

text \<open>\<^verbatim>\<open>a % b\<close> truncates the quotient towards zero (the sign of the result is the
  sign of \<open>a\<close>); it is NaN when \<open>b\<close> is zero.\<close>

definition js_rem :: "real \<Rightarrow> real \<Rightarrow> real option" where
  "js_rem a b =
     (if b = 0 then None
      else Some (a - b * of_int (if 0 \<le> a / b then \<lfloor>a / b\<rfloor> else \<lceil>a / b\<rceil>)))"

text \<open>A \<^verbatim>\<open>THREE.Vector3\<close>, over the numbers of the model that uses it.\<close>

datatype 'n vec3 = Vector3 (vx: 'n) (vy: 'n) (vz: 'n)

type_synonym Vector3 = "real vec3"

text \<open>\<^verbatim>\<open>THREE.Vector3.distanceTo\<close>: the Euclidean distance.\<close>

definition distanceTo :: "Vector3 \<Rightarrow> Vector3 \<Rightarrow> real" where
  "distanceTo p q =
     sqrt ((vx p - vx q) * (vx p - vx q) + (vy p - vy q) * (vy p - vy q)
           + (vz p - vz q) * (vz p - vz q))"

subsection \<open>The spline\<close>

text \<open>One coordinate of \<^verbatim>\<open>catmullRom\<close> (lines 53 to 55 apply the same expression
  to x, y and z).\<close>

definition catmullRom1 :: "real \<Rightarrow> real \<Rightarrow> real \<Rightarrow> real \<Rightarrow> real \<Rightarrow> real" where
  "catmullRom1 c0 c1 c2 c3 t =
     (let t2 = t * t; t3 = t2 * t in
      0.5 * (2 * c1 + (- c0 + c2) * t + (2 * c0 - 5 * c1 + 4 * c2 - c3) * t2
             + (- c0 + 3 * c1 - 3 * c2 + c3) * t3))"

definition catmullRom :: "Vector3 \<Rightarrow> Vector3 \<Rightarrow> Vector3 \<Rightarrow> Vector3 \<Rightarrow> real \<Rightarrow> Vector3" where
  "catmullRom p0 p1 p2 p3 t =
     Vector3 (catmullRom1 (vx p0) (vx p1) (vx p2) (vx p3) t)
             (catmullRom1 (vy p0) (vy p1) (vy p2) (vy p3) t)
             (catmullRom1 (vz p0) (vz p1) (vz p2) (vz p3) t)"

text \<open>\<^verbatim>\<open>getPoint(t)\<close>, lines 60 to 73. The four array reads may be out of range
  (they are when there are fewer than two points); \<^verbatim>\<open>catmullRom\<close> then reads a
  coordinate of \<^verbatim>\<open>undefined\<close> and throws.\<close>

definition getPoint :: "Vector3 list \<Rightarrow> real \<Rightarrow> error + Vector3" where
  "getPoint pts t0 =
     (let t = max 0 (min 1 t0);
          n = int (length pts) - 1;
          segment = min \<lfloor>t * of_int n\<rfloor> (n - 1);
          localT = t * of_int n - of_int segment
      in case (js_index pts (max 0 (segment - 1)), js_index pts segment,
               js_index pts (min n (segment + 1)), js_index pts (min n (segment + 2))) of
           (Some p0, Some p1, Some p2, Some p3) \<Rightarrow> Inr (catmullRom p0 p1 p2 p3 localT)
         | _ \<Rightarrow> Inl TypeError)"

subsection \<open>The arc-length table\<close>

record sample =
  parameter :: real
  distance :: real

text \<open>The loop of \<^verbatim>\<open>_buildArcLengthTable\<close>, lines 80 to 86, with its variables
  \<open>i\<close>, \<open>table\<close>, \<open>totalDist\<close> and \<open>prevPoint\<close>.\<close>

function buildLoop ::
  "Vector3 list \<Rightarrow> nat \<Rightarrow> nat \<Rightarrow> sample list \<Rightarrow> real \<Rightarrow> Vector3 \<Rightarrow> error + sample list" where
  "buildLoop pts segments i table totalDist prevPoint =
     (if i \<le> segments then
        (let t = real i / real segments in
         case getPoint pts t of
           Inl e \<Rightarrow> Inl e
         | Inr point \<Rightarrow>
             (let totalDist' = totalDist + distanceTo prevPoint point in
              buildLoop pts segments (i + 1)
                (table @ [\<lparr>parameter = t, distance = totalDist'\<rparr>]) totalDist' point))
      else Inr table)"
  by pat_completeness auto
termination
  by (relation "measure (\<lambda>(pts, segments, i, table, totalDist, prevPoint). segments + 1 - i)") auto

declare buildLoop.simps [simp del]

definition buildArcLengthTable :: "Vector3 list \<Rightarrow> nat \<Rightarrow> error + sample list" where
  "buildArcLengthTable pts segments =
     (case getPoint pts 0 of
        Inl e \<Rightarrow> Inl e
      | Inr prevPoint \<Rightarrow>
          buildLoop pts segments 1 [\<lparr>parameter = 0, distance = 0\<rparr>] 0 prevPoint)"

subsection \<open>The animator\<close>

text \<open>The part of a \<^verbatim>\<open>THREE.Object3D\<close> that \<^verbatim>\<open>update\<close> writes: its position,
  and the point it was last told to look at.\<close>

record 'n object3D =
  position :: "'n vec3"
  lookAt :: "'n vec3 option"

type_synonym Object3D = "real object3D"

text \<open>The fields of a \<^verbatim>\<open>CurveAnimator\<close>. The two counters and the attached object
  hold numbers of type \<open>'n\<close>: reals in the model of this section, JavaScript Numbers
  with NaN and the infinities in the model of the section that follows it. The control
  points, the options and the table are finite numbers in both.\<close>

record 'n animator =
  points :: "Vector3 list"
  speed :: real
  mode :: string
  duration :: real
  loop :: bool
  orientToDirection :: bool
  lookAheadDistance :: real
  arcLengthTable :: "sample list"
  totalLength :: real
  progress :: 'n
  distanceTraveled :: 'n
  isPlaying :: bool
  isComplete :: bool
  target :: "'n object3D option"

type_synonym CurveAnimator = "real animator"

text \<open>The options object of the constructor, with its defaults (lines 18 to 24).\<close>

record options =
  opt_speed :: real
  opt_mode :: string
  opt_duration :: real
  opt_loop :: bool
  opt_orientToDirection :: bool
  opt_lookAheadDistance :: real
  opt_arcLengthSegments :: nat

definition default_options :: options where
  "default_options =
     \<lparr>opt_speed = 1.0, opt_mode = ''train'', opt_duration = 3.0, opt_loop = False,
      opt_orientToDirection = True, opt_lookAheadDistance = 0.01,
      opt_arcLengthSegments = 200\<rparr>"

text \<open>The constructor, lines 17 to 46, for points that are already vectors. The table
  is never empty, so \<open>last\<close> reads its final entry.\<close>

definition new_CurveAnimator :: "Vector3 list \<Rightarrow> options \<Rightarrow> error + CurveAnimator" where
  "new_CurveAnimator pts opts =
     (case buildArcLengthTable pts (opt_arcLengthSegments opts) of
        Inl e \<Rightarrow> Inl e
      | Inr table \<Rightarrow>
          Inr \<lparr>points = pts, speed = opt_speed opts, mode = opt_mode opts,
               duration = opt_duration opts, loop = opt_loop opts,
               orientToDirection = opt_orientToDirection opts,
               lookAheadDistance = opt_lookAheadDistance opts,
               arcLengthTable = table, totalLength = distance (last table),
               progress = 0, distanceTraveled = 0, isPlaying = False, isComplete = False,
               target = None\<rparr>)"

text \<open>The binary search of \<^verbatim>\<open>getParameterForDistance\<close>, lines 96 to 101.
  \<^verbatim>\<open>(low + high) >> 1\<close> halves a non-negative integer, rounding down.\<close>

function search :: "sample list \<Rightarrow> real \<Rightarrow> int \<Rightarrow> int \<Rightarrow> error + int \<times> int" where
  "search table targetDist low high =
     (if low < high - 1 then
        (let mid = (low + high) div 2 in
         case js_index table mid of
           None \<Rightarrow> Inl TypeError
         | Some s \<Rightarrow>
             if distance s < targetDist then search table targetDist mid high
             else search table targetDist low mid)
      else Inr (low, high))"
  by pat_completeness auto
termination
  by (relation "measure (\<lambda>(table, targetDist, low, high). nat (high - low))") auto

declare search.simps [simp del]

definition getParameterForDistance :: "CurveAnimator \<Rightarrow> real \<Rightarrow> error + real" where
  "getParameterForDistance a targetDist =
     (let table = arcLengthTable a in
      if targetDist \<le> 0 then Inr 0
      else if targetDist \<ge> totalLength a then Inr 1
      else
        case search table targetDist 0 (int (length table) - 1) of
          Inl e \<Rightarrow> Inl e
        | Inr (low, high) \<Rightarrow>
            (case (js_index table low, js_index table high) of
               (Some s0, Some s1) \<Rightarrow>
                 (let d0 = distance s0; d1 = distance s1 in
                  case js_div (targetDist - d0) (d1 - d0) of
                    None \<Rightarrow> Inl NonFinite
                  | Some fraction \<Rightarrow>
                      Inr (parameter s0 + fraction * (parameter s1 - parameter s0)))
             | _ \<Rightarrow> Inl TypeError))"

definition attachTo :: "CurveAnimator \<Rightarrow> Object3D \<Rightarrow> CurveAnimator" where
  "attachTo a object3D = a\<lparr>target := Some object3D\<rparr>"

definition play :: "CurveAnimator \<Rightarrow> CurveAnimator" where
  "play a = a\<lparr>isPlaying := True, isComplete := False, progress := 0, distanceTraveled := 0\<rparr>"

definition pause :: "CurveAnimator \<Rightarrow> CurveAnimator" where
  "pause a = a\<lparr>isPlaying := False\<rparr>"

definition resume :: "CurveAnimator \<Rightarrow> CurveAnimator" where
  "resume a = a\<lparr>isPlaying := True\<rparr>"

definition reset :: "CurveAnimator \<Rightarrow> CurveAnimator" where
  "reset a = a\<lparr>progress := 0, distanceTraveled := 0, isPlaying := False, isComplete := False\<rparr>"

text \<open>Lines 138 to 159 of \<^verbatim>\<open>update\<close>: the counters advance, by distance in
  \<^verbatim>\<open>'train'\<close> mode and by time in every other mode.\<close>

definition advance :: "CurveAnimator \<Rightarrow> real \<Rightarrow> error + CurveAnimator" where
  "advance a dt =
     (if mode a = ''train'' then
        (let a1 = a\<lparr>distanceTraveled := distanceTraveled a + speed a * dt\<rparr> in
         case (if distanceTraveled a1 \<ge> totalLength a1 then
                 (if loop a1 then
                    (case js_rem (distanceTraveled a1) (totalLength a1) of
                       None \<Rightarrow> Inl NonFinite
                     | Some r \<Rightarrow> Inr (a1\<lparr>distanceTraveled := r\<rparr>))
                  else Inr (a1\<lparr>distanceTraveled := totalLength a1, isComplete := True\<rparr>))
               else Inr a1) of
           Inl e \<Rightarrow> Inl e
         | Inr a2 \<Rightarrow>
             (case getParameterForDistance a2 (distanceTraveled a2) of
                Inl e \<Rightarrow> Inl e
              | Inr p \<Rightarrow> Inr (a2\<lparr>progress := p\<rparr>)))
      else
        (case js_div dt (duration a) of
           None \<Rightarrow> Inl NonFinite
         | Some q \<Rightarrow>
             (let a1 = a\<lparr>progress := progress a + q\<rparr> in
              if progress a1 \<ge> 1 then
                (if loop a1 then
                   (case js_rem (progress a1) 1 of
                      None \<Rightarrow> Inl NonFinite
                    | Some r \<Rightarrow> Inr (a1\<lparr>progress := r\<rparr>))
                 else Inr (a1\<lparr>progress := 1, isComplete := True\<rparr>))
              else Inr a1)))"

text \<open>\<^verbatim>\<open>update(dt)\<close>, lines 135 to 173. The result is the new state and the value
  returned: \<open>None\<close> for the bare \<^verbatim>\<open>return\<close> of line 136, the position otherwise.\<close>

definition update :: "CurveAnimator \<Rightarrow> real \<Rightarrow> error + CurveAnimator \<times> Vector3 option" where
  "update a dt =
     (if \<not> isPlaying a \<or> isComplete a then Inr (a, None)
      else
        case advance a dt of
          Inl e \<Rightarrow> Inl e
        | Inr a' \<Rightarrow>
            (case getPoint (points a') (progress a') of
               Inl e \<Rightarrow> Inl e
             | Inr pos \<Rightarrow>
                 (case target a' of
                    None \<Rightarrow> Inr (a', Some pos)
                  | Some obj \<Rightarrow>
                      (let obj1 = obj\<lparr>position := pos\<rparr> in
                       if orientToDirection a' then
                         (case getPoint (points a')
                                 (min 1 (progress a' + lookAheadDistance a')) of
                            Inl e \<Rightarrow> Inl e
                          | Inr ahead \<Rightarrow>
                              Inr (a'\<lparr>target := Some (obj1\<lparr>lookAt := Some ahead\<rparr>)\<rparr>,
                                   Some pos))
                       else Inr (a'\<lparr>target := Some obj1\<rparr>, Some pos)))))"


subsection \<open>Vocabulary of the proofs\<close>

text \<open>What the search and the interpolation need of a table: it is not empty, its two
  columns are non-decreasing, it starts at \<open>(0, 0)\<close> and, when it has a second entry,
  its last parameter is 1.\<close>

definition table_ok :: "sample list \<Rightarrow> bool" where
  "table_ok tb \<longleftrightarrow>
     tb \<noteq> [] \<and> sorted (map distance tb) \<and> sorted (map parameter tb)
     \<and> distance (tb ! 0) = 0 \<and> parameter (tb ! 0) = 0
     \<and> (2 \<le> length tb \<longrightarrow> parameter (last tb) = 1)"

text \<open>The value the interpolation step (lines 103 to 106) returns for the bracket
  \<open>(l, l + 1)\<close>.\<close>

definition interp :: "sample list \<Rightarrow> nat \<Rightarrow> real \<Rightarrow> real" where
  "interp tb l d =
     parameter (tb ! l)
       + (d - distance (tb ! l)) / (distance (tb ! Suc l) - distance (tb ! l))
         * (parameter (tb ! Suc l) - parameter (tb ! l))"

text \<open>The invariant the constructor establishes and no method breaks: the table is the
  one \<^verbatim>\<open>_buildArcLengthTable\<close> computes from the points, and \<open>totalLength\<close> is
  the distance of its last entry.\<close>

definition constructed :: "CurveAnimator \<Rightarrow> bool" where
  "constructed a \<longleftrightarrow>
     buildArcLengthTable (points a) (length (arcLengthTable a) - 1) = Inr (arcLengthTable a)
     \<and> totalLength a = distance (last (arcLengthTable a))"

text \<open>The counter after wrapping, as the spec words it: the advanced counter itself
  below the bound, its remainder modulo the bound from the bound on.\<close>

definition wrapped :: "real \<Rightarrow> real \<Rightarrow> real" where
  "wrapped x m = (if m \<le> x then x - m * of_int \<lfloor>x / m\<rfloor> else x)"

text \<open>The states of the spec's state machine, read off the two flags the way the guard
  of \<^verbatim>\<open>update\<close> (line 136) reads them. The animator keeps no field that tells
  Idle from Paused.\<close>

datatype playback = IdleOrPaused | Playing | Complete

definition playbackState :: "CurveAnimator \<Rightarrow> playback" where
  "playbackState a =
     (if isComplete a then Complete else if isPlaying a then Playing else IdleOrPaused)"

subsection \<open>Example animators\<close>

text \<open>The collinear course of the spec's first scenario, sampled with three segments,
  and a degenerate course whose two control points coincide. Each record is the state
  the constructor returns (\<open>scenario_new\<close>, \<open>flat_new\<close> below).\<close>

definition scenario_points :: "Vector3 list" where
  "scenario_points = [Vector3 0 0 0, Vector3 1 0 0, Vector3 2 0 0, Vector3 3 0 0]"

definition scenario_options :: options where
  "scenario_options = default_options\<lparr>opt_arcLengthSegments := 3\<rparr>"

definition scenario :: CurveAnimator where
  "scenario =
     \<lparr>points = scenario_points, speed = 1, mode = ''train'', duration = 3, loop = False,
      orientToDirection = True, lookAheadDistance = 0.01,
      arcLengthTable =
        [\<lparr>parameter = 0, distance = 0\<rparr>, \<lparr>parameter = 1 / 3, distance = 1\<rparr>,
         \<lparr>parameter = 2 / 3, distance = 2\<rparr>, \<lparr>parameter = 1, distance = 3\<rparr>],
      totalLength = 3, progress = 0, distanceTraveled = 0, isPlaying = False,
      isComplete = False, target = None\<rparr>"

definition flat_points :: "Vector3 list" where
  "flat_points = [Vector3 0 0 0, Vector3 0 0 0]"

definition flat_options :: options where
  "flat_options = default_options\<lparr>opt_loop := True, opt_arcLengthSegments := 1\<rparr>"

definition flat :: CurveAnimator where
  "flat =
     \<lparr>points = flat_points, speed = 1, mode = ''train'', duration = 3, loop = True,
      orientToDirection = True, lookAheadDistance = 0.01,
      arcLengthTable = [\<lparr>parameter = 0, distance = 0\<rparr>, \<lparr>parameter = 1, distance = 0\<rparr>],
      totalLength = 0, progress = 0, distanceTraveled = 0, isPlaying = False,
      isComplete = False, target = None\<rparr>"


definition timed :: CurveAnimator where
  "timed = (play scenario)\<lparr>mode := ''time'', duration := 2\<rparr>"

section \<open>The animator over JavaScript Numbers\<close>

text \<open>
  A JavaScript Number is a real, NaN, or one of the two infinities. The operations below
  are those of the source on such numbers: NaN is contagious, every comparison with NaN is
  false, \<^verbatim>\<open>x / 0\<close> is an infinity (NaN for \<open>0 / 0\<close>), \<^verbatim>\<open>x % 0\<close> is NaN,
  \<^verbatim>\<open>Math.min\<close> and \<^verbatim>\<open>Math.max\<close> return NaN when an argument is NaN. On finite
  operands they are the exact operations on reals. The control points, the arc-length
  table and the options keep their real values (the constructor's results, see
  \<open>new_CurveAnimator\<close>); the two counters and the positions written to the target are
  JavaScript Numbers.
\<close>

datatype jsnum = Fin real | PosInf | NegInf | NaN

fun jneg :: "jsnum \<Rightarrow> jsnum" where
  "jneg (Fin a) = Fin (- a)"
| "jneg PosInf = NegInf"
| "jneg NegInf = PosInf"
| "jneg NaN = NaN"

fun jadd :: "jsnum \<Rightarrow> jsnum \<Rightarrow> jsnum" where
  "jadd NaN y = NaN"
| "jadd x NaN = NaN"
| "jadd (Fin a) (Fin b) = Fin (a + b)"
| "jadd PosInf NegInf = NaN"
| "jadd NegInf PosInf = NaN"
| "jadd PosInf y = PosInf"
| "jadd x PosInf = PosInf"
| "jadd NegInf y = NegInf"
| "jadd x NegInf = NegInf"

definition jsub :: "jsnum \<Rightarrow> jsnum \<Rightarrow> jsnum" where
  "jsub x y = jadd x (jneg y)"

fun jsgn :: "jsnum \<Rightarrow> int" where
  "jsgn (Fin a) = (if a < 0 then - 1 else if a = 0 then 0 else 1)"
| "jsgn PosInf = 1"
| "jsgn NegInf = - 1"
| "jsgn NaN = 0"

fun jmul :: "jsnum \<Rightarrow> jsnum \<Rightarrow> jsnum" where
  "jmul NaN y = NaN"
| "jmul x NaN = NaN"
| "jmul (Fin a) (Fin b) = Fin (a * b)"
| "jmul x y =
     (if jsgn x * jsgn y = 0 then NaN else if 0 < jsgn x * jsgn y then PosInf else NegInf)"

fun jdiv :: "jsnum \<Rightarrow> jsnum \<Rightarrow> jsnum" where
  "jdiv NaN y = NaN"
| "jdiv x NaN = NaN"
| "jdiv (Fin a) (Fin b) =
     (if b \<noteq> 0 then Fin (a / b)
      else if a = 0 then NaN else if 0 < a then PosInf else NegInf)"
| "jdiv (Fin a) y = Fin 0"
| "jdiv PosInf (Fin b) = (if 0 \<le> b then PosInf else NegInf)"
| "jdiv NegInf (Fin b) = (if 0 \<le> b then NegInf else PosInf)"
| "jdiv x y = NaN"

text \<open>\<^verbatim>\<open>a % b\<close>: NaN when \<open>a\<close> is not finite or \<open>b\<close> is zero, \<open>a\<close> when \<open>b\<close> is
  an infinity, and the truncating remainder of \<open>js_rem\<close> otherwise.\<close>

fun jrem :: "jsnum \<Rightarrow> jsnum \<Rightarrow> jsnum" where
  "jrem NaN y = NaN"
| "jrem x NaN = NaN"
| "jrem PosInf y = NaN"
| "jrem NegInf y = NaN"
| "jrem (Fin a) (Fin b) =
     (if b = 0 then NaN
      else Fin (a - b * of_int (if 0 \<le> a / b then \<lfloor>a / b\<rfloor> else \<lceil>a / b\<rceil>)))"
| "jrem (Fin a) y = Fin a"

fun jle :: "jsnum \<Rightarrow> jsnum \<Rightarrow> bool" where
  "jle NaN y = False"
| "jle x NaN = False"
| "jle (Fin a) (Fin b) = (a \<le> b)"
| "jle NegInf y = True"
| "jle x PosInf = True"
| "jle x y = False"

fun jlt :: "jsnum \<Rightarrow> jsnum \<Rightarrow> bool" where
  "jlt NaN y = False"
| "jlt x NaN = False"
| "jlt (Fin a) (Fin b) = (a < b)"
| "jlt x NegInf = False"
| "jlt PosInf y = False"
| "jlt x y = True"

definition jge :: "jsnum \<Rightarrow> jsnum \<Rightarrow> bool" where
  "jge x y = jle y x"

definition jmin :: "jsnum \<Rightarrow> jsnum \<Rightarrow> jsnum" where
  "jmin x y = (if x = NaN \<or> y = NaN then NaN else if jle x y then x else y)"

definition jmax :: "jsnum \<Rightarrow> jsnum \<Rightarrow> jsnum" where
  "jmax x y = (if x = NaN \<or> y = NaN then NaN else if jle x y then y else x)"

fun jfloor :: "jsnum \<Rightarrow> jsnum" where
  "jfloor (Fin a) = Fin (of_int \<lfloor>a\<rfloor>)"
| "jfloor x = x"

text \<open>\<^verbatim>\<open>xs[k]\<close> for a Number \<open>k\<close>: an element when \<open>k\<close> is an integer within the
  bounds, \<^verbatim>\<open>undefined\<close> otherwise (a fraction, NaN and the infinities name no
  element).\<close>

definition js_indexN :: "'a list \<Rightarrow> jsnum \<Rightarrow> 'a option" where
  "js_indexN xs k =
     (case k of
        Fin r \<Rightarrow> if r = of_int \<lfloor>r\<rfloor> then js_index xs \<lfloor>r\<rfloor> else None
      | _ \<Rightarrow> None)"

text \<open>\<^verbatim>\<open>catmullRom\<close> and \<^verbatim>\<open>getPoint\<close> (lines 49 to 73) at a parameter that is a
  JavaScript Number.\<close>

definition catmullRom1N :: "real \<Rightarrow> real \<Rightarrow> real \<Rightarrow> real \<Rightarrow> jsnum \<Rightarrow> jsnum" where
  "catmullRom1N c0 c1 c2 c3 t =
     (let t2 = jmul t t; t3 = jmul t2 t in
      jmul (Fin 0.5)
        (jadd (jadd (jadd (Fin (2 * c1)) (jmul (Fin (- c0 + c2)) t))
                    (jmul (Fin (2 * c0 - 5 * c1 + 4 * c2 - c3)) t2))
              (jmul (Fin (- c0 + 3 * c1 - 3 * c2 + c3)) t3)))"

definition catmullRomN :: "Vector3 \<Rightarrow> Vector3 \<Rightarrow> Vector3 \<Rightarrow> Vector3 \<Rightarrow> jsnum \<Rightarrow> jsnum vec3" where
  "catmullRomN p0 p1 p2 p3 t =
     Vector3 (catmullRom1N (vx p0) (vx p1) (vx p2) (vx p3) t)
             (catmullRom1N (vy p0) (vy p1) (vy p2) (vy p3) t)
             (catmullRom1N (vz p0) (vz p1) (vz p2) (vz p3) t)"

definition getPointN :: "Vector3 list \<Rightarrow> jsnum \<Rightarrow> error + jsnum vec3" where
  "getPointN pts t0 =
     (let t = jmax (Fin 0) (jmin (Fin 1) t0);
          n = int (length pts) - 1;
          tn = jmul t (Fin (of_int n));
          segment = jmin (jfloor tn) (Fin (of_int (n - 1)));
          localT = jsub tn segment
      in case (js_indexN pts (jmax (Fin 0) (jsub segment (Fin 1))), js_indexN pts segment,
               js_indexN pts (jmin (Fin (of_int n)) (jadd segment (Fin 1))),
               js_indexN pts (jmin (Fin (of_int n)) (jadd segment (Fin 2)))) of
           (Some p0, Some p1, Some p2, Some p3) \<Rightarrow> Inr (catmullRomN p0 p1 p2 p3 localT)
         | _ \<Rightarrow> Inl TypeError)"

text \<open>\<^verbatim>\<open>getParameterForDistance\<close> (lines 91 to 107). Both tests of lines 93 and 94
  are false for NaN, which then reaches the search and the division of line 105.\<close>

function searchN :: "sample list \<Rightarrow> jsnum \<Rightarrow> int \<Rightarrow> int \<Rightarrow> error + int \<times> int" where
  "searchN table targetDist low high =
     (if low < high - 1 then
        (let mid = (low + high) div 2 in
         case js_index table mid of
           None \<Rightarrow> Inl TypeError
         | Some s \<Rightarrow>
             if jlt (Fin (distance s)) targetDist then searchN table targetDist mid high
             else searchN table targetDist low mid)
      else Inr (low, high))"
  by pat_completeness auto
termination
  by (relation "measure (\<lambda>(table, targetDist, low, high). nat (high - low))") auto

declare searchN.simps [simp del]

definition getParameterForDistanceN :: "jsnum animator \<Rightarrow> jsnum \<Rightarrow> error + jsnum" where
  "getParameterForDistanceN a targetDist =
     (let table = arcLengthTable a in
      if jle targetDist (Fin 0) then Inr (Fin 0)
      else if jge targetDist (Fin (totalLength a)) then Inr (Fin 1)
      else
        case searchN table targetDist 0 (int (length table) - 1) of
          Inl e \<Rightarrow> Inl e
        | Inr (low, high) \<Rightarrow>
            (case (js_index table low, js_index table high) of
               (Some s0, Some s1) \<Rightarrow>
                 (let d0 = distance s0; d1 = distance s1;
                      fraction = jdiv (jsub targetDist (Fin d0)) (Fin (d1 - d0))
                  in Inr (jadd (Fin (parameter s0))
                            (jmul fraction (Fin (parameter s1 - parameter s0)))))
             | _ \<Rightarrow> Inl TypeError))"

text \<open>The divisor \<open>d1 - d0\<close> of line 105 in the call
  \<^verbatim>\<open>getParameterForDistance(targetDist)\<close>: \<open>None\<close> when the call returns or throws
  before that line, so that no division takes place.\<close>

definition interpolationDivisorN :: "jsnum animator \<Rightarrow> jsnum \<Rightarrow> real option" where
  "interpolationDivisorN a targetDist =
     (let table = arcLengthTable a in
      if jle targetDist (Fin 0) then None
      else if jge targetDist (Fin (totalLength a)) then None
      else
        case searchN table targetDist 0 (int (length table) - 1) of
          Inl e \<Rightarrow> None
        | Inr (low, high) \<Rightarrow>
            (case (js_index table low, js_index table high) of
               (Some s0, Some s1) \<Rightarrow> Some (distance s1 - distance s0)
             | _ \<Rightarrow> None))"

text \<open>\<^verbatim>\<open>update(dt)\<close> (lines 135 to 173). The source mutates the animator in place, so
  the fields written before an exception keep their new values: the state is returned in
  every case, next to \<open>Inl e\<close> for a thrown \<open>e\<close> or \<open>Inr\<close> of the returned position
  (\<open>None\<close> for the early return of line 136).\<close>

definition advanceN :: "jsnum animator \<Rightarrow> real \<Rightarrow> jsnum animator \<times> error option" where
  "advanceN a dt =
     (if mode a = ''train'' then
        (let a1 = a\<lparr>distanceTraveled := jadd (distanceTraveled a) (Fin (speed a * dt))\<rparr>;
             a2 = (if jge (distanceTraveled a1) (Fin (totalLength a1)) then
                     (if loop a1 then
                        a1\<lparr>distanceTraveled :=
                              jrem (distanceTraveled a1) (Fin (totalLength a1))\<rparr>
                      else a1\<lparr>distanceTraveled := Fin (totalLength a1), isComplete := True\<rparr>)
                   else a1)
         in case getParameterForDistanceN a2 (distanceTraveled a2) of
              Inl e \<Rightarrow> (a2, Some e)
            | Inr p \<Rightarrow> (a2\<lparr>progress := p\<rparr>, None))
      else
        (let a1 = a\<lparr>progress := jadd (progress a) (jdiv (Fin dt) (Fin (duration a)))\<rparr> in
         (if jge (progress a1) (Fin 1) then
            (if loop a1 then a1\<lparr>progress := jrem (progress a1) (Fin 1)\<rparr>
             else a1\<lparr>progress := Fin 1, isComplete := True\<rparr>)
          else a1, None)))"

definition updateN ::
  "jsnum animator \<Rightarrow> real \<Rightarrow> jsnum animator \<times> (error + jsnum vec3 option)" where
  "updateN a dt =
     (if \<not> isPlaying a \<or> isComplete a then (a, Inr None)
      else
        case advanceN a dt of
          (a', Some e) \<Rightarrow> (a', Inl e)
        | (a', None) \<Rightarrow>
            (case getPointN (points a') (progress a') of
               Inl e \<Rightarrow> (a', Inl e)
             | Inr pos \<Rightarrow>
                 (case target a' of
                    None \<Rightarrow> (a', Inr (Some pos))
                  | Some obj \<Rightarrow>
                      (let obj1 = obj\<lparr>position := pos\<rparr> in
                       if orientToDirection a' then
                         (case getPointN (points a')
                                 (jmin (Fin 1) (jadd (progress a') (Fin (lookAheadDistance a')))) of
                            Inl e \<Rightarrow> (a'\<lparr>target := Some obj1\<rparr>, Inl e)
                          | Inr ahead \<Rightarrow>
                              (a'\<lparr>target := Some (obj1\<lparr>lookAt := Some ahead\<rparr>)\<rparr>,
                               Inr (Some pos)))
                       else (a'\<lparr>target := Some obj1\<rparr>, Inr (Some pos))))))"

text \<open>A state of the real model, read as a state of this one.\<close>

definition lift3 :: "Vector3 \<Rightarrow> jsnum vec3" where
  "lift3 p = Vector3 (Fin (vx p)) (Fin (vy p)) (Fin (vz p))"

definition liftObject :: "Object3D \<Rightarrow> jsnum object3D" where
  "liftObject obj = \<lparr>position = lift3 (position obj), lookAt = map_option lift3 (lookAt obj)\<rparr>"

definition liftAnimator :: "CurveAnimator \<Rightarrow> jsnum animator" where
  "liftAnimator a =
     \<lparr>points = points a, speed = speed a, mode = mode a, duration = duration a, loop = loop a,
      orientToDirection = orientToDirection a, lookAheadDistance = lookAheadDistance a,
      arcLengthTable = arcLengthTable a, totalLength = totalLength a,
      progress = Fin (progress a), distanceTraveled = Fin (distanceTraveled a),
      isPlaying = isPlaying a, isComplete = isComplete a,
      target = map_option liftObject (target a)\<rparr>"

text \<open>The degenerate looping course after \<^verbatim>\<open>play()\<close>: what
  \<^verbatim>\<open>new CurveAnimator([p, p], {loop: true, arcLengthSegments: 1}).play()\<close> leaves for
  \<open>p\<close> the origin (\<open>flat_new\<close> below).\<close>

definition degenerate :: "jsnum animator" where
  "degenerate = liftAnimator (play flat)"

section \<open>The spline passes through its control points\<close>

lemma getPoint_eq:
  fixes t :: real
  assumes n: "n = int (length pts) - 1" and n1: "1 \<le> n"
    and t: "0 \<le> t" "t \<le> 1"
    and s: "s = min \<lfloor>t * of_int n\<rfloor> (n - 1)"
  shows "getPoint pts t =
           Inr (catmullRom (pts ! nat (max 0 (s - 1))) (pts ! nat s)
                  (pts ! nat (min n (s + 1))) (pts ! nat (min n (s + 2)))
                  (t * of_int n - of_int s))"
proof -
  have clamp: "max 0 (min 1 t) = t" using t by simp
  have "0 \<le> t * of_int n" using t n1 by simp
  then have s0: "0 \<le> s" using n1 by (simp add: s)
  have s1: "s \<le> n - 1" by (simp add: s)
  have len: "int (length pts) = n + 1" by (simp add: n)
  have i0: "js_index pts (max 0 (s - 1)) = Some (pts ! nat (max 0 (s - 1)))"
    using s0 s1 by (simp add: js_index_def len)
  have i1: "js_index pts s = Some (pts ! nat s)"
    using s0 s1 by (simp add: js_index_def len)
  have i2: "js_index pts (min n (s + 1)) = Some (pts ! nat (min n (s + 1)))"
    using s0 s1 by (simp add: js_index_def len)
  have i3: "js_index pts (min n (s + 2)) = Some (pts ! nat (min n (s + 2)))"
    using s0 s1 by (simp add: js_index_def len)
  show ?thesis
    unfolding getPoint_def Let_def clamp n [symmetric] s [symmetric]
    by (simp add: i0 i1 i2 i3)
qed

lemma getPoint_clamp: "getPoint pts t = getPoint pts (max 0 (min 1 t))"
  by (simp add: getPoint_def)

lemma getPoint_total:
  assumes "2 \<le> length pts"
  shows "\<exists>p. getPoint pts t = Inr p"
proof -
  have "1 \<le> int (length pts) - 1" using assms by simp
  then have "\<exists>p. getPoint pts (max 0 (min 1 t)) = Inr p"
    by (subst getPoint_eq [OF refl _ _ _ refl]) simp_all
  then show ?thesis by (subst getPoint_clamp)
qed






lemma getPoint_few:
  assumes "length pts < 2"
  shows "getPoint pts t = Inl TypeError"
proof -
  define n where "n = int (length pts) - 1"
  define s where "s = min \<lfloor>max 0 (min 1 t) * of_int n\<rfloor> (n - 1)"
  have "s \<le> n - 1" by (simp add: s_def)
  moreover have "n \<le> 0" using assms by (simp add: n_def)
  ultimately have "s < 0" by simp
  then have "js_index pts s = None" by (simp add: js_index_def)
  then show ?thesis
    unfolding getPoint_def Let_def n_def [symmetric] s_def [symmetric]
    by (simp split: option.splits)
qed

lemma distanceTo_nonneg: "0 \<le> distanceTo p q"
  by (simp add: distanceTo_def)

lemma buildLoop_inv:
  assumes "2 \<le> length pts"
    and "length table = i" and "1 \<le> i" and "i \<le> segments + 1"
    and "sorted (map distance table)"
    and "\<forall>s \<in> set table. distance s \<le> totalDist"
    and "\<forall>k < i. parameter (table ! k) = real k / real segments"
  shows "\<exists>tb. buildLoop pts segments i table totalDist prevPoint = Inr tb
           \<and> length tb = segments + 1
           \<and> sorted (map distance tb)
           \<and> (\<forall>k \<le> segments. parameter (tb ! k) = real k / real segments)
           \<and> take i tb = table"
  using assms
proof (induction pts segments i table totalDist prevPoint rule: buildLoop.induct)
  case (1 pts segments i table totalDist prevPoint)
  show ?case
  proof (cases "i \<le> segments")
    case False
    with "1.prems" have i: "i = segments + 1" by simp
    have "buildLoop pts segments i table totalDist prevPoint = Inr table"
      using False by (subst buildLoop.simps) simp
    moreover have "\<forall>k \<le> segments. parameter (table ! k) = real k / real segments"
      using "1.prems"(7) i by simp
    ultimately show ?thesis using "1.prems" i by simp
  next
    case True
    define t where "t = real i / real segments"
    obtain point where gp: "getPoint pts t = Inr point"
      using getPoint_total [OF "1.prems"(1)] by blast
    define td where "td = totalDist + distanceTo prevPoint point"
    define table' where "table' = table @ [\<lparr>parameter = t, distance = td\<rparr>]"
    have unf: "buildLoop pts segments i table totalDist prevPoint
                 = buildLoop pts segments (i + 1) table' td point"
      using True gp by (subst buildLoop.simps) (simp add: t_def td_def table'_def Let_def)
    have le: "totalDist \<le> td" by (simp add: td_def distanceTo_nonneg)
    have p1: "length table' = i + 1" using "1.prems"(2) by (simp add: table'_def)
    have p2: "sorted (map distance table')"
      using "1.prems"(5,6) le by (auto simp: table'_def sorted_append)
    have p3: "\<forall>s \<in> set table'. distance s \<le> td"
      using "1.prems"(6) le by (auto simp: table'_def)
    have p4: "\<forall>k < i + 1. parameter (table' ! k) = real k / real segments"
    proof (intro allI impI)
      fix k assume "k < i + 1"
      then consider "k < i" | "k = i" by linarith
      then show "parameter (table' ! k) = real k / real segments"
      proof cases
        case 1
        then show ?thesis using "1.prems"(2,7) by (simp add: table'_def nth_append)
      next
        case 2
        then show ?thesis using "1.prems"(2) by (simp add: table'_def nth_append t_def)
      qed
    qed
    from "1.IH" [OF True t_def gp td_def [unfolded t_def] "1.prems"(1)]
    have IH: "length table' = i + 1 \<Longrightarrow> 1 \<le> i + 1 \<Longrightarrow> i + 1 \<le> segments + 1 \<Longrightarrow>
        sorted (map distance table') \<Longrightarrow> \<forall>s \<in> set table'. distance s \<le> td \<Longrightarrow>
        \<forall>k < i + 1. parameter (table' ! k) = real k / real segments \<Longrightarrow>
        \<exists>tb. buildLoop pts segments (i + 1) table' td point = Inr tb
           \<and> length tb = segments + 1
           \<and> sorted (map distance tb)
           \<and> (\<forall>k \<le> segments. parameter (tb ! k) = real k / real segments)
           \<and> take (i + 1) tb = table'"
      unfolding table'_def td_def t_def by blast
    from IH [OF p1 _ _ p2 p3 p4] True
    obtain tb where tb: "buildLoop pts segments (i + 1) table' td point = Inr tb"
      "length tb = segments + 1" "sorted (map distance tb)"
      "\<forall>k \<le> segments. parameter (tb ! k) = real k / real segments"
      "take (i + 1) tb = table'" by auto
    have "take i table' = table" using "1.prems"(2) by (simp add: table'_def)
    moreover have "take i (take (i + 1) tb) = take i tb" by (simp add: min_def)
    ultimately have "take i tb = table" by (simp only: tb(5))
    with tb unf show ?thesis by simp
  qed
qed

section \<open>The arc-length table\<close>

lemma buildArcLengthTable_few:
  "length pts < 2 \<Longrightarrow> buildArcLengthTable pts segments = Inl TypeError"
  by (simp add: buildArcLengthTable_def getPoint_few)

lemma buildArcLengthTable_props:
  assumes "2 \<le> length pts"
  shows "\<exists>tb. buildArcLengthTable pts segments = Inr tb
           \<and> length tb = segments + 1
           \<and> sorted (map distance tb)
           \<and> (\<forall>k \<le> segments. parameter (tb ! k) = real k / real segments)
           \<and> tb ! 0 = \<lparr>parameter = 0, distance = 0\<rparr>"
proof -
  obtain p where p: "getPoint pts 0 = Inr p"
    using getPoint_total [OF assms] by blast
  have "\<exists>tb. buildLoop pts segments 1 [\<lparr>parameter = 0, distance = 0\<rparr>] 0 p = Inr tb
           \<and> length tb = segments + 1
           \<and> sorted (map distance tb)
           \<and> (\<forall>k \<le> segments. parameter (tb ! k) = real k / real segments)
           \<and> take 1 tb = [\<lparr>parameter = 0, distance = 0\<rparr>]"
    by (rule buildLoop_inv [OF assms]) simp_all
  then obtain tb where tb: "buildLoop pts segments 1 [\<lparr>parameter = 0, distance = 0\<rparr>] 0 p = Inr tb"
      "length tb = segments + 1" "sorted (map distance tb)"
      "\<forall>k \<le> segments. parameter (tb ! k) = real k / real segments"
      "take 1 tb = [\<lparr>parameter = 0, distance = 0\<rparr>]" by blast
  have "tb ! 0 = take 1 tb ! 0" by simp
  then have "tb ! 0 = \<lparr>parameter = 0, distance = 0\<rparr>" by (simp only: tb(5) nth_Cons_0)
  with tb p show ?thesis by (simp add: buildArcLengthTable_def)
qed

lemma built_table_ok:
  assumes "buildArcLengthTable pts segments = Inr tb"
  shows "table_ok tb \<and> length tb = segments + 1"
proof -
  have two: "2 \<le> length pts"
    using assms buildArcLengthTable_few [of pts segments] by (cases "length pts < 2") auto
  from buildArcLengthTable_props [OF two, of segments] assms
  have len: "length tb = segments + 1" and sd: "sorted (map distance tb)"
    and par: "\<forall>k \<le> segments. parameter (tb ! k) = real k / real segments"
    and z: "tb ! 0 = \<lparr>parameter = 0, distance = 0\<rparr>" by auto
  have sp: "sorted (map parameter tb)"
  proof (unfold sorted_iff_nth_mono, intro allI impI)
    fix i j assume "i \<le> j" "j < length (map parameter tb)"
    then have "i \<le> segments" "j \<le> segments" "real i \<le> real j" using len by simp_all
    then show "map parameter tb ! i \<le> map parameter tb ! j"
      using par len by (simp add: divide_right_mono)
  qed
  have l1: "2 \<le> length tb \<longrightarrow> parameter (last tb) = 1"
  proof
    assume "2 \<le> length tb"
    then have seg: "1 \<le> segments" using len by simp
    have "tb \<noteq> []" using len by auto
    then have "last tb = tb ! segments" using len by (simp add: last_conv_nth)
    then show "parameter (last tb) = 1" using par seg by simp
  qed
  show ?thesis using len sd sp z l1 by (auto simp: table_ok_def)
qed

section \<open>The distance-to-parameter search\<close>

lemma search_bracket:
  assumes "0 \<le> lo" "lo < hi" "hi < int (length tb)"
    and "distance (tb ! nat lo) < d" "d \<le> distance (tb ! nat hi)"
  shows "\<exists>l. search tb d lo hi = Inr (l, l + 1) \<and> lo \<le> l \<and> l + 1 \<le> hi
           \<and> distance (tb ! nat l) < d \<and> d \<le> distance (tb ! nat (l + 1))"
  using assms
proof (induction tb d lo hi rule: search.induct)
  case (1 table targetDist low high)
  show ?case
  proof (cases "low < high - 1")
    case False
    with "1.prems" have h: "high = low + 1" by simp
    have "search table targetDist low high = Inr (low, high)"
      using False by (subst search.simps) simp
    then show ?thesis using "1.prems" h by simp
  next
    case True
    define mid where "mid = (low + high) div 2"
    have m: "low < mid" "mid < high" using True by (simp_all add: mid_def)
    have ix: "js_index table mid = Some (table ! nat mid)"
      using m "1.prems" by (simp add: js_index_def)
    show ?thesis
    proof (cases "distance (table ! nat mid) < targetDist")
      case lt: True
      have unf: "search table targetDist low high = search table targetDist mid high"
        using True ix lt by (subst search.simps) (simp add: mid_def Let_def)
      from "1.IH"(1) [OF True mid_def ix lt] m "1.prems" lt
      obtain l where "search table targetDist mid high = Inr (l, l + 1)" "mid \<le> l"
        "l + 1 \<le> high" "distance (table ! nat l) < targetDist"
        "targetDist \<le> distance (table ! nat (l + 1))" by auto
      then show ?thesis using unf m by auto
    next
      case ge: False
      have unf: "search table targetDist low high = search table targetDist low mid"
        using True ix ge by (subst search.simps) (simp add: mid_def Let_def)
      from "1.IH"(2) [OF True mid_def ix ge] m "1.prems" ge
      obtain l where "search table targetDist low mid = Inr (l, l + 1)" "low \<le> l"
        "l + 1 \<le> mid" "distance (table ! nat l) < targetDist"
        "targetDist \<le> distance (table ! nat (l + 1))" by auto
      then show ?thesis using unf m by auto
    qed
  qed
qed

lemma table_ok_total_nonneg:
  assumes "table_ok tb"
  shows "0 \<le> distance (last tb)"
proof -
  have ne: "tb \<noteq> []" using assms by (simp add: table_ok_def)
  have "map distance tb ! 0 \<le> map distance tb ! (length tb - 1)"
    using assms ne by (intro sorted_nth_mono) (simp_all add: table_ok_def)
  then show ?thesis using assms ne by (simp add: table_ok_def last_conv_nth)
qed

lemma gpfd_interior:
  assumes ok: "table_ok (arcLengthTable a)"
    and tl: "totalLength a = distance (last (arcLengthTable a))"
    and d: "0 < d" "d < totalLength a"
  shows "\<exists>l. Suc l < length (arcLengthTable a)
           \<and> distance (arcLengthTable a ! l) < d \<and> d \<le> distance (arcLengthTable a ! Suc l)
           \<and> getParameterForDistance a d = Inr (interp (arcLengthTable a) l d)"
proof -
  define tb where "tb = arcLengthTable a"
  have ne: "tb \<noteq> []" and z: "distance (tb ! 0) = 0"
    using ok by (simp_all add: table_ok_def tb_def)
  have lastd: "distance (tb ! (length tb - 1)) = totalLength a"
    using ne tl by (simp add: tb_def last_conv_nth)
  have len2: "2 \<le> length tb"
  proof (rule ccontr)
    assume "\<not> 2 \<le> length tb"
    then have "length tb - 1 = 0" by simp
    with lastd z d show False by simp
  qed
  have hi: "nat (int (length tb) - 1) = length tb - 1" by simp
  from search_bracket [of 0 "int (length tb) - 1" tb d] len2 z d lastd
  obtain l where l: "search tb d 0 (int (length tb) - 1) = Inr (l, l + 1)" "0 \<le> l"
    "l + 1 \<le> int (length tb) - 1" "distance (tb ! nat l) < d"
    "d \<le> distance (tb ! nat (l + 1))" by (auto simp: hi)
  have sl: "nat (l + 1) = Suc (nat l)" using l(2) by simp
  have i0: "js_index tb l = Some (tb ! nat l)" using l by (simp add: js_index_def)
  have i1: "js_index tb (l + 1) = Some (tb ! Suc (nat l))"
    using l by (simp add: js_index_def sl)
  have pos: "distance (tb ! Suc (nat l)) - distance (tb ! nat l) \<noteq> 0"
    using l(4,5) by (simp add: sl)
  have "getParameterForDistance a d = Inr (interp tb (nat l) d)"
    using d l(1) i0 i1 pos
    by (simp add: getParameterForDistance_def Let_def js_div_def interp_def flip: tb_def)
  moreover have "Suc (nat l) < length tb" using l by simp
  ultimately show ?thesis using l(4,5) unfolding tb_def [symmetric] sl by blast
qed

lemma table_nth_mono:
  assumes "table_ok tb" "i \<le> j" "j < length tb"
  shows "distance (tb ! i) \<le> distance (tb ! j)" "parameter (tb ! i) \<le> parameter (tb ! j)"
proof -
  have "map distance tb ! i \<le> map distance tb ! j"
    using assms by (intro sorted_nth_mono) (simp_all add: table_ok_def)
  then show "distance (tb ! i) \<le> distance (tb ! j)" using assms by simp
  have "map parameter tb ! i \<le> map parameter tb ! j"
    using assms by (intro sorted_nth_mono) (simp_all add: table_ok_def)
  then show "parameter (tb ! i) \<le> parameter (tb ! j)" using assms by simp
qed

lemma table_parameter_range:
  assumes "table_ok tb" "Suc l < length tb"
  shows "0 \<le> parameter (tb ! l)" "parameter (tb ! Suc l) \<le> 1"
proof -
  have "parameter (tb ! 0) \<le> parameter (tb ! l)"
    using assms by (intro table_nth_mono) simp_all
  then show "0 \<le> parameter (tb ! l)" using assms by (simp add: table_ok_def)
  have ne: "tb \<noteq> []" using assms by auto
  have "parameter (tb ! Suc l) \<le> parameter (tb ! (length tb - 1))"
    using assms by (intro table_nth_mono) simp_all
  moreover have "parameter (last tb) = 1" using assms by (simp add: table_ok_def)
  ultimately show "parameter (tb ! Suc l) \<le> 1" using ne by (simp add: last_conv_nth)
qed

lemma interp_between:
  assumes ok: "table_ok tb" and l: "Suc l < length tb"
    and d: "distance (tb ! l) < d" "d \<le> distance (tb ! Suc l)"
  shows "parameter (tb ! l) \<le> interp tb l d" "interp tb l d \<le> parameter (tb ! Suc l)"
proof -
  define w where "w = distance (tb ! Suc l) - distance (tb ! l)"
  define f where "f = (d - distance (tb ! l)) / w"
  define h where "h = parameter (tb ! Suc l) - parameter (tb ! l)"
  have w: "0 < w" using d by (simp add: w_def)
  have f: "0 \<le> f" "f \<le> 1" using d w by (simp_all add: f_def w_def)
  have "parameter (tb ! l) \<le> parameter (tb ! Suc l)"
    using ok l by (intro table_nth_mono) simp_all
  then have h: "0 \<le> h" by (simp add: h_def)
  have eq: "interp tb l d = parameter (tb ! l) + f * h"
    by (simp add: interp_def f_def w_def h_def)
  have "0 \<le> f * h" using f h by simp
  then show "parameter (tb ! l) \<le> interp tb l d" by (simp add: eq)
  have "f * h \<le> 1 * h" using f h by (intro mult_right_mono) simp_all
  then show "interp tb l d \<le> parameter (tb ! Suc l)" by (simp add: eq h_def)
qed

lemma interp_mono:
  assumes ok: "table_ok tb" and l: "Suc l < length tb"
    and w: "distance (tb ! l) < distance (tb ! Suc l)" and dd: "d \<le> d'"
  shows "interp tb l d \<le> interp tb l d'"
proof -
  define w where "w = distance (tb ! Suc l) - distance (tb ! l)"
  define h where "h = parameter (tb ! Suc l) - parameter (tb ! l)"
  have w0: "0 < w" using w by (simp add: w_def)
  have "parameter (tb ! l) \<le> parameter (tb ! Suc l)"
    using ok l by (intro table_nth_mono) simp_all
  then have h: "0 \<le> h" by (simp add: h_def)
  have "(d - distance (tb ! l)) / w \<le> (d' - distance (tb ! l)) / w"
    using dd w0 by (simp add: divide_right_mono)
  then have "(d - distance (tb ! l)) / w * h \<le> (d' - distance (tb ! l)) / w * h"
    using h by (rule mult_right_mono)
  then show ?thesis by (simp add: interp_def w_def h_def)
qed

lemma gpfd_low: "d \<le> 0 \<Longrightarrow> getParameterForDistance a d = Inr 0"
  by (simp add: getParameterForDistance_def)

lemma gpfd_high: "0 < d \<Longrightarrow> totalLength a \<le> d \<Longrightarrow> getParameterForDistance a d = Inr 1"
  by (simp add: getParameterForDistance_def)

lemma gpfd_range:
  assumes ok: "table_ok (arcLengthTable a)"
    and tl: "totalLength a = distance (last (arcLengthTable a))"
  shows "\<exists>r. getParameterForDistance a d = Inr r \<and> 0 \<le> r \<and> r \<le> 1"
proof -
  consider "d \<le> 0" | "0 < d" "totalLength a \<le> d" | "0 < d" "d < totalLength a" by linarith
  then show ?thesis
  proof cases
    case 1
    then show ?thesis by (simp add: gpfd_low)
  next
    case 2
    then show ?thesis by (simp add: gpfd_high)
  next
    case 3
    from gpfd_interior [OF ok tl 3]
    obtain l where l: "Suc l < length (arcLengthTable a)"
      "distance (arcLengthTable a ! l) < d" "d \<le> distance (arcLengthTable a ! Suc l)"
      "getParameterForDistance a d = Inr (interp (arcLengthTable a) l d)" by blast
    have "0 \<le> interp (arcLengthTable a) l d"
      using table_parameter_range(1) [OF ok l(1)] interp_between(1) [OF ok l(1,2,3)] by simp
    moreover have "interp (arcLengthTable a) l d \<le> 1"
      using table_parameter_range(2) [OF ok l(1)] interp_between(2) [OF ok l(1,2,3)] by simp
    ultimately show ?thesis using l(4) by simp
  qed
qed

lemma gpfd_mono:
  assumes ok: "table_ok (arcLengthTable a)"
    and tl: "totalLength a = distance (last (arcLengthTable a))"
    and dd: "d \<le> d'"
  shows "\<exists>r r'. getParameterForDistance a d = Inr r \<and> getParameterForDistance a d' = Inr r'
           \<and> r \<le> r'"
proof -
  obtain r where r: "getParameterForDistance a d = Inr r" "0 \<le> r" "r \<le> 1"
    using gpfd_range [OF ok tl] by blast
  obtain r' where r': "getParameterForDistance a d' = Inr r'" "0 \<le> r'" "r' \<le> 1"
    using gpfd_range [OF ok tl] by blast
  consider "d \<le> 0" | "0 < d'" "totalLength a \<le> d'" | "0 < d" "d' < totalLength a"
    using dd by linarith
  then have "r \<le> r'"
  proof cases
    case 1
    then have "r = 0" using r(1) by (simp add: gpfd_low)
    then show ?thesis using r' by simp
  next
    case 2
    then have "r' = 1" using r'(1) by (simp add: gpfd_high)
    then show ?thesis using r by simp
  next
    case 3
    define tb where "tb = arcLengthTable a"
    have okt: "table_ok tb" using ok by (simp add: tb_def)
    have d1: "0 < d" "d < totalLength a" using 3 dd by simp_all
    have d2: "0 < d'" "d' < totalLength a" using 3 dd by simp_all
    from gpfd_interior [OF ok tl d1] r(1)
    obtain l where l: "Suc l < length tb" "distance (tb ! l) < d" "d \<le> distance (tb ! Suc l)"
      "r = interp tb l d" unfolding tb_def by auto
    from gpfd_interior [OF ok tl d2] r'(1)
    obtain l' where l': "Suc l' < length tb" "distance (tb ! l') < d'"
      "d' \<le> distance (tb ! Suc l')" "r' = interp tb l' d'" unfolding tb_def by auto
    have "\<not> l' < l"
    proof
      assume "l' < l"
      then have "distance (tb ! Suc l') \<le> distance (tb ! l)"
        using okt l(1) by (intro table_nth_mono) simp_all
      with l(2) l'(3) dd show False by simp
    qed
    then consider "l = l'" | "l < l'" by linarith
    then show ?thesis
    proof cases
      case 1
      have "distance (tb ! l) < distance (tb ! Suc l)" using l(2,3) by simp
      from interp_mono [OF okt l(1) this dd] show ?thesis by (simp add: l(4) l'(4) 1)
    next
      case 2
      have "interp tb l d \<le> parameter (tb ! Suc l)" by (rule interp_between(2) [OF okt l(1,2,3)])
      also have "\<dots> \<le> parameter (tb ! l')"
        using okt 2 l'(1) by (intro table_nth_mono) simp_all
      also have "\<dots> \<le> interp tb l' d'" by (rule interp_between(1) [OF okt l'(1,2,3)])
      finally show ?thesis by (simp add: l(4) l'(4))
    qed
  qed
  with r(1) r'(1) show ?thesis by simp
qed

section \<open>Playback\<close>

lemma constructed_new:
  assumes "new_CurveAnimator pts opts = Inr a"
  shows "constructed a"
proof -
  obtain tb where tb: "buildArcLengthTable pts (opt_arcLengthSegments opts) = Inr tb"
    using assms by (auto simp: new_CurveAnimator_def split: sum.splits)
  have "length tb - 1 = opt_arcLengthSegments opts" using built_table_ok [OF tb] by simp
  then show ?thesis using assms tb by (auto simp: new_CurveAnimator_def constructed_def)
qed

lemma constructedD:
  assumes "constructed a"
  shows "table_ok (arcLengthTable a)" "totalLength a = distance (last (arcLengthTable a))"
    "2 \<le> length (points a)" "0 \<le> totalLength a"
proof -
  have b: "buildArcLengthTable (points a) (length (arcLengthTable a) - 1) = Inr (arcLengthTable a)"
    and tl: "totalLength a = distance (last (arcLengthTable a))"
    using assms by (simp_all add: constructed_def)
  show ok: "table_ok (arcLengthTable a)" using built_table_ok [OF b] by simp
  show "totalLength a = distance (last (arcLengthTable a))" by (rule tl)
  show "2 \<le> length (points a)"
    using b buildArcLengthTable_few [of "points a"] by (cases "length (points a) < 2") auto
  show "0 \<le> totalLength a" using table_ok_total_nonneg [OF ok] by (simp add: tl)
qed

lemma js_rem_wrap:
  assumes "0 < m" "m \<le> x"
  shows "js_rem x m = Some (x - m * of_int \<lfloor>x / m\<rfloor>)"
    and "0 \<le> x - m * of_int \<lfloor>x / m\<rfloor>" and "x - m * of_int \<lfloor>x / m\<rfloor> < m"
proof -
  have q: "0 \<le> x / m" using assms by simp
  then show "js_rem x m = Some (x - m * of_int \<lfloor>x / m\<rfloor>)"
    using assms by (simp add: js_rem_def)
  have mq: "m * (x / m) = x" using assms(1) by simp
  have "m * of_int \<lfloor>x / m\<rfloor> \<le> m * (x / m)"
    using assms(1) by (intro mult_left_mono) simp_all
  then show "0 \<le> x - m * of_int \<lfloor>x / m\<rfloor>" unfolding mq by simp
  have "x / m < of_int \<lfloor>x / m\<rfloor> + 1" by linarith
  then have "m * (x / m) < m * (of_int \<lfloor>x / m\<rfloor> + 1)"
    using assms(1) by (intro mult_strict_left_mono) simp_all
  then show "x - m * of_int \<lfloor>x / m\<rfloor> < m" unfolding mq by (simp add: algebra_simps)
qed

lemma advance_train_loop:
  assumes c: "constructed a" and m: "mode a = ''train''" and l: "loop a"
    and r: "advance a dt = Inr a'"
  shows "distanceTraveled a' = wrapped (distanceTraveled a + speed a * dt) (totalLength a)"
    and "distanceTraveled a' \<le> totalLength a" and "progress a' \<le> 1"
    and "isComplete a' = isComplete a"
proof -
  define x where "x = distanceTraveled a + speed a * dt"
  define L where "L = totalLength a"
  have L0: "0 \<le> L" using constructedD(4) [OF c] by (simp add: L_def)
  show "distanceTraveled a' = wrapped (distanceTraveled a + speed a * dt) (totalLength a)"
    and "distanceTraveled a' \<le> totalLength a" and "progress a' \<le> 1"
    and "isComplete a' = isComplete a"
  proof -
    consider "x < L" | "L \<le> x" "L = 0" | "L \<le> x" "0 < L" using L0 by linarith
    then have "distanceTraveled a' = wrapped x L \<and> distanceTraveled a' \<le> L
                 \<and> progress a' \<le> 1 \<and> isComplete a' = isComplete a"
    proof cases
      case 1
      define a1 where "a1 = a\<lparr>distanceTraveled := x\<rparr>"
      have ok: "table_ok (arcLengthTable a1)" "totalLength a1 = distance (last (arcLengthTable a1))"
        using constructedD(1,2) [OF c] by (simp_all add: a1_def)
      obtain p where p: "getParameterForDistance a1 x = Inr p" "p \<le> 1"
        using gpfd_range [OF ok] by blast
      have "advance a dt = Inr (a1\<lparr>progress := p\<rparr>)"
        using m 1 p(1) by (simp add: advance_def Let_def a1_def flip: x_def L_def)
      then have "a' = a1\<lparr>progress := p\<rparr>" using r by simp
      then show ?thesis using 1 p(2) by (simp add: a1_def wrapped_def L_def)
    next
      case 2
      have "advance a dt = Inl NonFinite"
        using m l 2 by (simp add: advance_def Let_def js_rem_def flip: x_def L_def)
      then show ?thesis using r by simp
    next
      case 3
      define y where "y = x - L * of_int \<lfloor>x / L\<rfloor>"
      note w = js_rem_wrap [OF 3(2,1), folded y_def]
      define a1 where "a1 = a\<lparr>distanceTraveled := y\<rparr>"
      have ok: "table_ok (arcLengthTable a1)" "totalLength a1 = distance (last (arcLengthTable a1))"
        using constructedD(1,2) [OF c] by (simp_all add: a1_def)
      obtain p where p: "getParameterForDistance a1 y = Inr p" "p \<le> 1"
        using gpfd_range [OF ok] by blast
      have "advance a dt = Inr (a1\<lparr>progress := p\<rparr>)"
        using m l 3 p(1) w(1) by (simp add: advance_def Let_def a1_def flip: x_def L_def)
      then have "a' = a1\<lparr>progress := p\<rparr>" using r by simp
      then show ?thesis using 3 p(2) w(3) by (simp add: a1_def wrapped_def L_def y_def)
    qed
    then show "distanceTraveled a' = wrapped (distanceTraveled a + speed a * dt) (totalLength a)"
      and "distanceTraveled a' \<le> totalLength a" and "progress a' \<le> 1"
      and "isComplete a' = isComplete a"
      by (simp_all add: x_def L_def)
  qed
qed

lemma advance_frame:
  assumes "advance a dt = Inr a'"
  shows "points a' = points a" "arcLengthTable a' = arcLengthTable a"
    "totalLength a' = totalLength a" "loop a' = loop a" "mode a' = mode a"
    "speed a' = speed a" "duration a' = duration a" "isPlaying a' = isPlaying a"
    "target a' = target a" "orientToDirection a' = orientToDirection a"
    "lookAheadDistance a' = lookAheadDistance a"
  using assms
  by (auto simp: advance_def Let_def split: if_splits option.splits sum.splits)

lemma constructed_cong:
  assumes "points b = points a" "arcLengthTable b = arcLengthTable a"
    "totalLength b = totalLength a"
  shows "constructed b = constructed a"
  by (simp add: constructed_def assms)

lemma advance_train_noloop:
  assumes c: "constructed a" and m: "mode a = ''train''" and l: "\<not> loop a"
  shows "\<exists>a'. advance a dt = Inr a'
           \<and> isComplete a' = (isComplete a \<or> totalLength a \<le> distanceTraveled a + speed a * dt)
           \<and> distanceTraveled a' = min (totalLength a) (distanceTraveled a + speed a * dt)"
proof -
  define x where "x = distanceTraveled a + speed a * dt"
  define L where "L = totalLength a"
  show ?thesis
  proof (cases "L \<le> x")
    case True
    define a2 where "a2 = a\<lparr>distanceTraveled := L, isComplete := True\<rparr>"
    have ok: "table_ok (arcLengthTable a2)" "totalLength a2 = distance (last (arcLengthTable a2))"
      using constructedD(1,2) [OF c] by (simp_all add: a2_def)
    obtain p where p: "getParameterForDistance a2 L = Inr p"
      using gpfd_range [OF ok] by blast
    have "advance a dt = Inr (a2\<lparr>progress := p\<rparr>)"
      using m l p True by (simp add: advance_def Let_def a2_def flip: x_def L_def)
    then show ?thesis
      unfolding x_def [symmetric] L_def [symmetric] using True by (simp add: a2_def min_def)
  next
    case False
    define a2 where "a2 = a\<lparr>distanceTraveled := x\<rparr>"
    have ok: "table_ok (arcLengthTable a2)" "totalLength a2 = distance (last (arcLengthTable a2))"
      using constructedD(1,2) [OF c] by (simp_all add: a2_def)
    obtain p where p: "getParameterForDistance a2 x = Inr p"
      using gpfd_range [OF ok] by blast
    have "advance a dt = Inr (a2\<lparr>progress := p\<rparr>)"
      using m l p False by (simp add: advance_def Let_def a2_def flip: x_def L_def)
    then show ?thesis
      unfolding x_def [symmetric] L_def [symmetric] using False by (simp add: a2_def min_def)
  qed
qed

lemma advance_train_total:
  assumes c: "constructed a" and m: "mode a = ''train''"
    and nz: "0 < totalLength a \<or> distanceTraveled a + speed a * dt < totalLength a"
  shows "\<exists>a'. advance a dt = Inr a'"
proof (cases "loop a")
  case False
  then show ?thesis using advance_train_noloop [OF c m] by blast
next
  case True
  define x where "x = distanceTraveled a + speed a * dt"
  define L where "L = totalLength a"
  define y where "y = (if L \<le> x then x - L * of_int \<lfloor>x / L\<rfloor> else x)"
  define a2 where "a2 = a\<lparr>distanceTraveled := y\<rparr>"
  have ok: "table_ok (arcLengthTable a2)" "totalLength a2 = distance (last (arcLengthTable a2))"
    using constructedD(1,2) [OF c] by (simp_all add: a2_def)
  obtain p where p: "getParameterForDistance a2 y = Inr p"
    using gpfd_range [OF ok] by blast
  have "advance a dt = Inr (a2\<lparr>progress := p\<rparr>)"
  proof (cases "L \<le> x")
    case ge: True
    then have "0 < L" using nz by (simp add: x_def L_def)
    from js_rem_wrap(1) [OF this ge] show ?thesis
      using m True ge p by (simp add: advance_def Let_def a2_def y_def flip: x_def L_def)
  next
    case lt: False
    then show ?thesis
      using m True p by (simp add: advance_def Let_def a2_def y_def flip: x_def L_def)
  qed
  then show ?thesis by blast
qed

lemma advance_time:
  assumes m: "mode a \<noteq> ''train''" and d: "duration a \<noteq> 0"
  shows "\<exists>a'. advance a dt = Inr a'
           \<and> isComplete a' = (isComplete a \<or> (\<not> loop a \<and> 1 \<le> progress a + dt / duration a))
           \<and> progress a' =
               (if loop a then wrapped (progress a + dt / duration a) 1
                else min 1 (progress a + dt / duration a))
           \<and> distanceTraveled a' = distanceTraveled a"
proof -
  define y where "y = progress a + dt / duration a"
  have r: "1 \<le> y \<Longrightarrow> js_rem y 1 = Some (y - of_int \<lfloor>y\<rfloor>)"
    using js_rem_wrap(1) [of 1 y] by simp
  show ?thesis
    unfolding y_def [symmetric] using m d r
    by (cases "1 \<le> y")
      (simp_all add: advance_def Let_def js_div_def wrapped_def min_def flip: y_def)
qed



lemma update_noop: "\<not> isPlaying a \<or> isComplete a \<Longrightarrow> update a dt = Inr (a, None)"
  by (auto simp: update_def)

lemma update_playing:
  assumes "isPlaying a" "\<not> isComplete a" "advance a dt = Inr a'" "2 \<le> length (points a')"
  shows "\<exists>tg pos. update a dt = Inr (a'\<lparr>target := tg\<rparr>, Some pos)"
proof -
  obtain pos where pos: "getPoint (points a') (progress a') = Inr pos"
    using getPoint_total [OF assms(4)] by blast
  obtain ahead where ahead:
    "getPoint (points a') (min 1 (progress a' + lookAheadDistance a')) = Inr ahead"
    using getPoint_total [OF assms(4)] by blast
  show ?thesis
  proof (cases "target a'")
    case None
    then have "update a dt = Inr (a'\<lparr>target := None\<rparr>, Some pos)"
      using assms(1,2,3) pos by (simp add: update_def)
    then show ?thesis by blast
  next
    case (Some obj)
    show ?thesis
    proof (cases "orientToDirection a'")
      case True
      then have "update a dt =
          Inr (a'\<lparr>target := Some (obj\<lparr>position := pos, lookAt := Some ahead\<rparr>)\<rparr>, Some pos)"
        using assms(1,2,3) pos ahead Some by (simp add: update_def Let_def)
      then show ?thesis by blast
    next
      case False
      then have "update a dt = Inr (a'\<lparr>target := Some (obj\<lparr>position := pos\<rparr>)\<rparr>, Some pos)"
        using assms(1,2,3) pos Some by (simp add: update_def Let_def)
      then show ?thesis by blast
    qed
  qed
qed

lemma update_inversion:
  assumes "update a dt = Inr (b, r)" "isPlaying a" "\<not> isComplete a"
  shows "\<exists>a' tg pos. advance a dt = Inr a' \<and> b = a'\<lparr>target := tg\<rparr> \<and> r = Some pos"
proof -
  obtain a' where a': "advance a dt = Inr a'"
    using assms by (cases "advance a dt") (simp_all add: update_def)
  obtain pos where pos: "getPoint (points a') (progress a') = Inr pos"
    using assms a' by (cases "getPoint (points a') (progress a')") (simp_all add: update_def)
  show ?thesis
  proof (cases "target a'")
    case None
    then have "b = a'\<lparr>target := None\<rparr>" "r = Some pos"
      using assms a' pos by (simp_all add: update_def)
    then show ?thesis using a' by blast
  next
    case (Some obj)
    then show ?thesis
      using assms a' pos
      by (auto simp: update_def Let_def split: if_splits sum.splits)
  qed
qed

lemma play_constructed: "constructed (play a) = constructed a"
  by (rule constructed_cong) (simp_all add: play_def)

lemma pause_constructed: "constructed (pause a) = constructed a"
  by (rule constructed_cong) (simp_all add: pause_def)

lemma resume_constructed: "constructed (resume a) = constructed a"
  by (rule constructed_cong) (simp_all add: resume_def)

lemma reset_constructed: "constructed (reset a) = constructed a"
  by (rule constructed_cong) (simp_all add: reset_def)

lemma attachTo_constructed: "constructed (attachTo a obj) = constructed a"
  by (rule constructed_cong) (simp_all add: attachTo_def)

lemma update_constructed:
  assumes "update a dt = Inr (b, r)"
  shows "constructed b = constructed a"
proof (cases "isPlaying a \<and> \<not> isComplete a")
  case False
  then have "b = a" using assms update_noop [of a dt] by auto
  then show ?thesis by simp
next
  case True
  from update_inversion [OF assms] True
  obtain a' tg where a': "advance a dt = Inr a'" and b: "b = a'\<lparr>target := tg\<rparr>" by blast
  show ?thesis by (rule constructed_cong) (simp_all add: b advance_frame [OF a'])
qed



section \<open>The example animators, evaluated\<close>

lemmas getPoint_eval = getPoint_def js_index_def catmullRom_def catmullRom1_def

lemma scenario_getPoint:
  "getPoint scenario_points 0 = Inr (Vector3 0 0 0)"
  "getPoint scenario_points (1 / 3) = Inr (Vector3 1 0 0)"
  "getPoint scenario_points (2 / 3) = Inr (Vector3 2 0 0)"
  "getPoint scenario_points 1 = Inr (Vector3 3 0 0)"
  by (simp_all add: getPoint_eval scenario_points_def)

lemma scenario_table:
  "buildArcLengthTable scenario_points 3 = Inr (arcLengthTable scenario)"
  by (simp add: buildArcLengthTable_def buildLoop.simps scenario_getPoint distanceTo_def
      scenario_def)

lemma scenario_new: "new_CurveAnimator scenario_points scenario_options = Inr scenario"
  using scenario_table
  by (simp add: new_CurveAnimator_def scenario_options_def default_options_def scenario_def)

lemma scenario_constructed: "constructed scenario"
proof -
  have "length (arcLengthTable scenario) - 1 = 3" by (simp add: scenario_def)
  moreover have "totalLength scenario = distance (last (arcLengthTable scenario))"
    by (simp add: scenario_def)
  moreover have "points scenario = scenario_points" by (simp add: scenario_def)
  ultimately show ?thesis using scenario_table by (simp only: constructed_def simp_thms)
qed

lemma flat_getPoint: "getPoint flat_points 0 = Inr (Vector3 0 0 0)"
  "getPoint flat_points 1 = Inr (Vector3 0 0 0)"
  by (simp_all add: getPoint_eval flat_points_def)

lemma flat_table: "buildArcLengthTable flat_points 1 = Inr (arcLengthTable flat)"
  by (simp add: buildArcLengthTable_def buildLoop.simps flat_getPoint distanceTo_def flat_def)

lemma flat_new: "new_CurveAnimator flat_points flat_options = Inr flat"
  using flat_table
  by (simp add: new_CurveAnimator_def flat_options_def default_options_def flat_def)

lemma flat_constructed: "constructed flat"
proof -
  have "length (arcLengthTable flat) - 1 = 1" by (simp add: flat_def)
  moreover have "totalLength flat = distance (last (arcLengthTable flat))"
    by (simp add: flat_def)
  moreover have "points flat = flat_points" by (simp add: flat_def)
  ultimately show ?thesis using flat_table by (simp only: constructed_def simp_thms)
qed

text \<open>The scenario run by evaluation: after \<^verbatim>\<open>play()\<close> and \<^verbatim>\<open>update(1.5)\<close> the
  animator has travelled 1.5 and stands at (1.5, 0, 0).\<close>

lemma scenario_search:
  "search (arcLengthTable scenario) (3 / 2) 0 3 = Inr (1, 2)"
  by (simp add: search.simps [of _ _ 0 3] search.simps [of _ _ 1 3] search.simps [of _ _ 1 2]
      scenario_def js_index_def)

lemma scenario_update:
  "update (play scenario) (3 / 2)
     = Inr ((play scenario)\<lparr>distanceTraveled := 3 / 2, progress := 1 / 2\<rparr>,
            Some (Vector3 (3 / 2) 0 0))"
proof -
  have g: "getParameterForDistance (play scenario\<lparr>distanceTraveled := 3 / 2\<rparr>) (3 / 2)
            = Inr (1 / 2)"
    using scenario_search
    by (simp add: getParameterForDistance_def play_def scenario_def js_index_def js_div_def)
  have a: "advance (play scenario) (3 / 2)
            = Inr ((play scenario)\<lparr>distanceTraveled := 3 / 2, progress := 1 / 2\<rparr>)"
    using g by (simp add: advance_def Let_def) (simp add: play_def scenario_def)
  have p: "getPoint scenario_points (1 / 2) = Inr (Vector3 (3 / 2) 0 0)"
    by (simp add: getPoint_eval scenario_points_def)
  show ?thesis
    using a p by (simp add: update_def) (simp add: play_def scenario_def)
qed




lemma timed_constructed: "constructed (timed\<lparr>progress := p\<rparr>)"
proof -
  have "constructed (timed\<lparr>progress := p\<rparr>) = constructed scenario"
    by (rule constructed_cong) (simp_all add: timed_def play_def)
  then show ?thesis by (simp add: scenario_constructed)
qed

lemma timed_first_update:
  "update timed 1 = Inr (timed\<lparr>progress := 1 / 2\<rparr>, Some (Vector3 (3 / 2) 0 0))"
proof -
  have a: "advance timed 1 = Inr (timed\<lparr>progress := 1 / 2\<rparr>)"
    by (simp add: advance_def Let_def js_div_def timed_def play_def scenario_def)
  have p: "getPoint scenario_points (1 / 2) = Inr (Vector3 (3 / 2) 0 0)"
    by (simp add: getPoint_eval scenario_points_def)
  show ?thesis
    using a p by (simp add: update_def) (simp add: timed_def play_def scenario_def)
qed

lemma timed_second_update:
  "update (timed\<lparr>progress := 1 / 2\<rparr>) 1
     = Inr (timed\<lparr>progress := 1, isComplete := True\<rparr>, Some (Vector3 3 0 0))"
proof -
  have a: "advance (timed\<lparr>progress := 1 / 2\<rparr>) 1
             = Inr (timed\<lparr>progress := 1, isComplete := True\<rparr>)"
    by (simp add: advance_def Let_def js_div_def timed_def play_def scenario_def)
  show ?thesis
    using a scenario_getPoint(4)
    by (simp add: update_def) (simp add: timed_def play_def scenario_def)
qed

section \<open>The real model is the finite part of the JavaScript-Number model\<close>

text \<open>On finite operands the operations on JavaScript Numbers are the operations on
  reals, so every call of the real model that returns is the same call of the
  JavaScript-Number model: \<open>updateN_refines\<close>. What is proved of a returning call of
  \<open>update\<close> therefore holds of \<open>updateN\<close> on the same state.\<close>

lemma jsub_Fin [simp]: "jsub (Fin a) (Fin b) = Fin (a - b)"
  by (simp add: jsub_def)

lemma jge_Fin [simp]: "jge (Fin a) (Fin b) = (b \<le> a)"
  by (simp add: jge_def)

lemma jmin_Fin [simp]: "jmin (Fin a) (Fin b) = Fin (min a b)"
  by (simp add: jmin_def min_def)

lemma jmax_Fin [simp]: "jmax (Fin a) (Fin b) = Fin (max a b)"
  by (simp add: jmax_def max_def)

lemma js_indexN_of_int [simp]: "js_indexN xs (Fin (of_int k)) = js_index xs k"
  by (simp add: js_indexN_def)

lemma catmullRom1N_Fin:
  "catmullRom1N c0 c1 c2 c3 (Fin t) = Fin (catmullRom1 c0 c1 c2 c3 t)"
  by (simp add: catmullRom1N_def catmullRom1_def Let_def)

lemma catmullRomN_Fin:
  "catmullRomN p0 p1 p2 p3 (Fin t) = lift3 (catmullRom p0 p1 p2 p3 t)"
  by (simp add: catmullRomN_def catmullRom_def catmullRom1N_Fin lift3_def)

lemma getPointN_Fin:
  "getPointN pts (Fin t) = (case getPoint pts t of Inl e \<Rightarrow> Inl e | Inr p \<Rightarrow> Inr (lift3 p))"
proof -
  define u where "u = max 0 (min 1 t)"
  define n where "n = int (length pts) - 1"
  define s where "s = min \<lfloor>u * of_int n\<rfloor> (n - 1)"
  have seg: "jmin (jfloor (jmul (Fin u) (Fin (of_int n)))) (Fin (of_int (n - 1)))
               = Fin (of_int s)"
    by (simp add: s_def of_int_min)
  have i0: "jmax (Fin 0) (jsub (Fin (of_int s)) (Fin 1)) = Fin (of_int (max 0 (s - 1)))"
    by (simp add: of_int_max)
  have i2: "jmin (Fin (of_int n)) (jadd (Fin (of_int s)) (Fin 1)) = Fin (of_int (min n (s + 1)))"
    by (simp add: of_int_min)
  have i3: "jmin (Fin (of_int n)) (jadd (Fin (of_int s)) (Fin 2)) = Fin (of_int (min n (s + 2)))"
    by (simp add: of_int_min)
  have cl: "jmax (Fin 0) (jmin (Fin 1) (Fin t)) = Fin u" by (simp add: u_def)
  have lt: "jsub (jmul (Fin u) (Fin (of_int n))) (Fin (of_int s)) = Fin (u * of_int n - of_int s)"
    by simp
  show ?thesis
    unfolding getPointN_def getPoint_def Let_def cl u_def [symmetric] n_def [symmetric]
      seg s_def [symmetric] i0 i2 i3 lt js_indexN_of_int
    by (simp add: catmullRomN_Fin split: option.splits)
qed

lemma searchN_Fin: "searchN tb (Fin d) lo hi = search tb d lo hi"
proof (induction tb d lo hi rule: search.induct)
  case (1 table targetDist low high)
  show ?case
  proof (cases "low < high - 1")
    case False
    then show ?thesis by (subst searchN.simps, subst search.simps) simp
  next
    case True
    define mid where "mid = (low + high) div 2"
    show ?thesis
    proof (cases "js_index table mid")
      case None
      then show ?thesis
        using True by (subst searchN.simps, subst search.simps) (simp add: mid_def Let_def)
    next
      case (Some s)
      show ?thesis
      proof (cases "distance s < targetDist")
        case lt: True
        from "1.IH"(1) [OF True mid_def Some lt]
        show ?thesis
          using True Some lt
          by (subst searchN.simps, subst search.simps) (simp add: mid_def Let_def)
      next
        case ge: False
        from "1.IH"(2) [OF True mid_def Some ge]
        show ?thesis
          using True Some ge
          by (subst searchN.simps, subst search.simps) (simp add: mid_def Let_def)
      qed
    qed
  qed
qed

lemma liftAnimator_simps [simp]:
  "points (liftAnimator a) = points a" "speed (liftAnimator a) = speed a"
  "mode (liftAnimator a) = mode a" "duration (liftAnimator a) = duration a"
  "loop (liftAnimator a) = loop a" "orientToDirection (liftAnimator a) = orientToDirection a"
  "lookAheadDistance (liftAnimator a) = lookAheadDistance a"
  "arcLengthTable (liftAnimator a) = arcLengthTable a"
  "totalLength (liftAnimator a) = totalLength a"
  "progress (liftAnimator a) = Fin (progress a)"
  "distanceTraveled (liftAnimator a) = Fin (distanceTraveled a)"
  "isPlaying (liftAnimator a) = isPlaying a" "isComplete (liftAnimator a) = isComplete a"
  "target (liftAnimator a) = map_option liftObject (target a)"
  by (simp_all add: liftAnimator_def)

lemma liftAnimator_update [simp]:
  "(liftAnimator a)\<lparr>distanceTraveled := Fin x\<rparr> = liftAnimator (a\<lparr>distanceTraveled := x\<rparr>)"
  "(liftAnimator a)\<lparr>progress := Fin x\<rparr> = liftAnimator (a\<lparr>progress := x\<rparr>)"
  "(liftAnimator a)\<lparr>isComplete := c\<rparr> = liftAnimator (a\<lparr>isComplete := c\<rparr>)"
  "(liftAnimator a)\<lparr>target := Some (liftObject obj)\<rparr> = liftAnimator (a\<lparr>target := Some obj\<rparr>)"
  by (simp_all add: liftAnimator_def)

lemma getParameterForDistanceN_Fin:
  assumes "getParameterForDistance a d = Inr r"
  shows "getParameterForDistanceN (liftAnimator a) (Fin d) = Inr (Fin r)"
  using assms
  by (auto simp: getParameterForDistanceN_def getParameterForDistance_def Let_def searchN_Fin
      js_div_def split: if_splits sum.splits option.splits prod.splits)

lemma jrem_Fin:
  "js_rem a b = Some r \<Longrightarrow> jrem (Fin a) (Fin b) = Fin r"
  by (auto simp: js_rem_def split: if_splits)

lemma jdiv_Fin:
  "js_div a b = Some q \<Longrightarrow> jdiv (Fin a) (Fin b) = Fin q"
  by (auto simp: js_div_def split: if_splits)

lemma advanceN_refines:
  assumes "advance a dt = Inr a'"
  shows "advanceN (liftAnimator a) dt = (liftAnimator a', None)"
proof (cases "mode a = ''train''")
  case True
  define x where "x = distanceTraveled a + speed a * dt"
  define L where "L = totalLength a"
  define a1 where "a1 = a\<lparr>distanceTraveled := x\<rparr>"
  have A1: "(liftAnimator a)\<lparr>distanceTraveled :=
               jadd (distanceTraveled (liftAnimator a)) (Fin (speed (liftAnimator a) * dt))\<rparr>
             = liftAnimator a1"
    by (simp add: a1_def x_def)
  have conv: "advanceN (liftAnimator a) dt = (liftAnimator (a2\<lparr>progress := p\<rparr>), None)"
    if n: "(if jge (distanceTraveled (liftAnimator a1)) (Fin (totalLength (liftAnimator a1))) then
              (if loop (liftAnimator a1) then
                 (liftAnimator a1)\<lparr>distanceTraveled :=
                   jrem (distanceTraveled (liftAnimator a1)) (Fin (totalLength (liftAnimator a1)))\<rparr>
               else (liftAnimator a1)\<lparr>distanceTraveled := Fin (totalLength (liftAnimator a1)),
                      isComplete := True\<rparr>)
            else liftAnimator a1) = liftAnimator a2"
      and p: "getParameterForDistance a2 (distanceTraveled a2) = Inr p" for a2 p
  proof -
    have g: "getParameterForDistanceN (liftAnimator a2) (distanceTraveled (liftAnimator a2))
               = Inr (Fin p)"
      using getParameterForDistanceN_Fin [OF p] by simp
    show ?thesis
      unfolding advanceN_def Let_def A1 n g by (simp add: True)
  qed
  have f1: "distanceTraveled (liftAnimator a1) = Fin x" "totalLength (liftAnimator a1) = L"
    "loop (liftAnimator a1) = loop a"
    by (simp_all add: a1_def L_def)
  consider "x < L" | "L \<le> x" "\<not> loop a" | "L \<le> x" "loop a" by linarith
  then show ?thesis
  proof cases
    case 1
    define a2 where "a2 = a\<lparr>distanceTraveled := x\<rparr>"
    obtain p where p: "getParameterForDistance a2 (distanceTraveled a2) = Inr p"
      and a': "a' = a2\<lparr>progress := p\<rparr>"
      using assms True 1
      by (auto simp: advance_def Let_def a2_def simp flip: x_def L_def split: sum.splits)
    show ?thesis
      unfolding a' using 1 by (intro conv [OF _ p]) (simp add: f1 a2_def a1_def L_def)
  next
    case 2
    define a2 where "a2 = a\<lparr>distanceTraveled := L, isComplete := True\<rparr>"
    obtain p where p: "getParameterForDistance a2 (distanceTraveled a2) = Inr p"
      and a': "a' = a2\<lparr>progress := p\<rparr>"
      using assms True 2
      by (auto simp: advance_def Let_def a2_def simp flip: x_def L_def split: sum.splits)
    show ?thesis
      unfolding a' using 2 by (intro conv [OF _ p]) (simp add: f1 a2_def a1_def L_def)
  next
    case 3
    obtain r where r: "js_rem x L = Some r"
      using assms True 3
      by (cases "js_rem x L") (auto simp: advance_def Let_def simp flip: x_def L_def)
    define a2 where "a2 = a\<lparr>distanceTraveled := r\<rparr>"
    obtain p where p: "getParameterForDistance a2 (distanceTraveled a2) = Inr p"
      and a': "a' = a2\<lparr>progress := p\<rparr>"
      using assms True 3 r
      by (auto simp: advance_def Let_def a2_def simp flip: x_def L_def split: sum.splits)
    show ?thesis
      unfolding a' using 3 jrem_Fin [OF r] by (intro conv [OF _ p]) (simp add: f1 a2_def a1_def L_def)
  qed
next
  case False
  obtain q where q: "js_div dt (duration a) = Some q"
    using assms False by (auto simp: advance_def split: option.splits)
  define y where "y = progress a + q"
  consider "y < 1" | "1 \<le> y" "\<not> loop a" | "1 \<le> y" "loop a" by linarith
  then show ?thesis
  proof cases
    case 1
    then have "a' = a\<lparr>progress := y\<rparr>"
      using assms False q by (simp add: advance_def Let_def flip: y_def)
    then show ?thesis
      using False 1 jdiv_Fin [OF q] by (simp add: advanceN_def Let_def flip: y_def)
  next
    case 2
    then have "a' = a\<lparr>progress := 1, isComplete := True\<rparr>"
      using assms False q by (simp add: advance_def Let_def flip: y_def)
    then show ?thesis
      using False 2 jdiv_Fin [OF q] by (simp add: advanceN_def Let_def flip: y_def)
  next
    case 3
    obtain r where r: "js_rem y 1 = Some r" by (simp add: js_rem_def)
    then have "a' = a\<lparr>progress := r\<rparr>"
      using assms False q 3 by (simp add: advance_def Let_def flip: y_def)
    then show ?thesis
      using False 3 jdiv_Fin [OF q] jrem_Fin [OF r]
      by (simp add: advanceN_def Let_def flip: y_def)
  qed
qed

lemma liftObject_update [simp]:
  "(liftObject obj)\<lparr>position := lift3 p\<rparr> = liftObject (obj\<lparr>position := p\<rparr>)"
  "(liftObject obj)\<lparr>lookAt := Some (lift3 p)\<rparr> = liftObject (obj\<lparr>lookAt := Some p\<rparr>)"
  by (simp_all add: liftObject_def)

theorem updateN_refines:
  assumes "update a dt = Inr (b, r)"
  shows "updateN (liftAnimator a) dt = (liftAnimator b, Inr (map_option lift3 r))"
proof (cases "isPlaying a \<and> \<not> isComplete a")
  case False
  then have "b = a" "r = None" using assms update_noop [of a dt] by auto
  then show ?thesis using False by (auto simp: updateN_def)
next
  case True
  obtain a' where a': "advance a dt = Inr a'"
    using assms True by (cases "advance a dt") (simp_all add: update_def)
  obtain pos where pos: "getPoint (points a') (progress a') = Inr pos"
    using assms True a' by (cases "getPoint (points a') (progress a')") (simp_all add: update_def)
  have A: "advanceN (liftAnimator a) dt = (liftAnimator a', None)"
    by (rule advanceN_refines [OF a'])
  have P: "getPointN (points a') (Fin (progress a')) = Inr (lift3 pos)"
    by (simp add: getPointN_Fin pos)
  show ?thesis
  proof (cases "target a'")
    case None
    then have "b = a'" "r = Some pos" using assms True a' pos by (simp_all add: update_def)
    then show ?thesis using True A P None by (simp add: updateN_def)
  next
    case (Some obj)
    show ?thesis
    proof (cases "orientToDirection a'")
      case False
      then have "b = a'\<lparr>target := Some (obj\<lparr>position := pos\<rparr>)\<rparr>" "r = Some pos"
        using assms True a' pos Some by (simp_all add: update_def Let_def)
      then show ?thesis using True A P Some False by (simp add: updateN_def Let_def)
    next
      case orient: True
      obtain ahead where ahead:
        "getPoint (points a') (min 1 (progress a' + lookAheadDistance a')) = Inr ahead"
        using assms True a' pos Some orient
        by (cases "getPoint (points a') (min 1 (progress a' + lookAheadDistance a'))")
          (simp_all add: update_def Let_def)
      have Q: "getPointN (points a')
                 (jmin (Fin 1) (jadd (Fin (progress a')) (Fin (lookAheadDistance a'))))
               = Inr (lift3 ahead)"
        by (simp add: getPointN_Fin ahead)
      have "b = a'\<lparr>target := Some (obj\<lparr>position := pos, lookAt := Some ahead\<rparr>)\<rparr>" "r = Some pos"
        using assms True a' pos Some orient ahead by (simp_all add: update_def Let_def)
      then show ?thesis using True A P Q Some orient by (simp add: updateN_def Let_def)
    qed
  qed
qed

text \<open>Away from a zero divisor every update of a constructed animator returns.\<close>

lemma update_returns:
  assumes c: "constructed a"
    and t: "mode a = ''train'' \<longrightarrow> 0 < totalLength a"
    and d: "mode a \<noteq> ''train'' \<longrightarrow> duration a \<noteq> 0"
  shows "\<exists>b r. update a dt = Inr (b, r)"
proof (cases "isPlaying a \<and> \<not> isComplete a")
  case False
  then show ?thesis using update_noop [of a dt] by auto
next
  case True
  have "\<exists>a'. advance a dt = Inr a'"
  proof (cases "mode a = ''train''")
    case True
    then show ?thesis using advance_train_total [OF c True, of dt] t by simp
  next
    case False
    then show ?thesis using advance_time [OF False, of dt] d by blast
  qed
  then obtain a' where a': "advance a dt = Inr a'" ..
  have "2 \<le> length (points a')"
    using constructedD(3) [OF c] advance_frame(1) [OF a'] by simp
  from update_playing [OF _ _ a' this] True
  obtain tg pos where "update a dt = Inr (a'\<lparr>target := tg\<rparr>, Some pos)" by blast
  then show ?thesis by blast
qed

section \<open>The degenerate course over JavaScript Numbers\<close>

lemma getPointN_NaN: "getPointN pts NaN = Inl TypeError"
  by (simp add: getPointN_def jmin_def jmax_def jsub_def js_indexN_def)

lemma degenerate_fields:
  "points degenerate = flat_points" "speed degenerate = 1" "mode degenerate = ''train''"
  "loop degenerate" "arcLengthTable degenerate = arcLengthTable flat"
  "totalLength degenerate = 0" "distanceTraveled degenerate = Fin 0"
  "progress degenerate = Fin 0" "isPlaying degenerate" "\<not> isComplete degenerate"
  "target degenerate = None"
  by (simp_all add: degenerate_def play_def flat_def)

lemma flat_table_fields:
  "length (arcLengthTable flat) = 2"
  "js_index (arcLengthTable flat) 0 = Some \<lparr>parameter = 0, distance = 0\<rparr>"
  "js_index (arcLengthTable flat) 1 = Some \<lparr>parameter = 1, distance = 0\<rparr>"
  by (simp_all add: flat_def js_index_def)

lemma degenerate_conversion_of_NaN:
  assumes "arcLengthTable A = arcLengthTable flat"
  shows "getParameterForDistanceN A NaN = Inr NaN"
    and "interpolationDivisorN A NaN = Some 0"
  by (simp_all add: getParameterForDistanceN_def interpolationDivisorN_def jge_def
      searchN.simps jsub_def assms flat_table_fields)

lemma degenerate_advance:
  assumes "0 \<le> dt"
  shows "advanceN degenerate dt = (degenerate\<lparr>distanceTraveled := NaN, progress := NaN\<rparr>, None)"
proof -
  have x: "jadd (distanceTraveled degenerate) (Fin (speed degenerate * dt)) = Fin dt"
    by (simp add: degenerate_fields)
  have f: "totalLength (degenerate\<lparr>distanceTraveled := Fin dt\<rparr>) = 0"
    "loop (degenerate\<lparr>distanceTraveled := Fin dt\<rparr>)"
    "distanceTraveled (degenerate\<lparr>distanceTraveled := Fin dt\<rparr>) = Fin dt"
    by (simp_all add: degenerate_fields)
  have g: "getParameterForDistanceN (degenerate\<lparr>distanceTraveled := NaN\<rparr>) NaN = Inr NaN"
    by (rule degenerate_conversion_of_NaN) (simp add: degenerate_fields)
  have j: "jge (Fin dt) (Fin 0)" "jrem (Fin dt) (Fin 0) = NaN"
    using assms by (simp_all add: jge_def)
  show ?thesis
    unfolding advanceN_def Let_def x f
    by (simp add: degenerate_fields g j assms)
qed

lemma degenerate_update:
  assumes "0 \<le> dt"
  shows "updateN degenerate dt
           = (degenerate\<lparr>distanceTraveled := NaN, progress := NaN\<rparr>, Inl TypeError)"
  by (simp add: updateN_def degenerate_fields degenerate_advance [OF assms] getPointN_NaN)


section \<open>Properties of the spline and of construction\<close>



text \<open>
  Claim C6. For at least two control points and a segment count \<open>S\<close> the constructor
  succeeds, and its table has exactly \<open>S + 1\<close> entries, whose parameters are the grid
  \<open>i / S\<close>, whose first entry is \<open>(0, 0)\<close>, whose distances never decrease and
  whose last distance is \<open>totalLength\<close>; for \<open>S \<ge> 1\<close>, the segment counts the spec
  admits, the last parameter is 1.
\<close>

theorem arcLengthTable_shape:
  assumes "2 \<le> length pts"
  shows "\<exists>a. new_CurveAnimator pts opts = Inr a
           \<and> length (arcLengthTable a) = opt_arcLengthSegments opts + 1
           \<and> (\<forall>i \<le> opt_arcLengthSegments opts.
                 parameter (arcLengthTable a ! i) = real i / real (opt_arcLengthSegments opts))
           \<and> parameter (arcLengthTable a ! 0) = 0 \<and> distance (arcLengthTable a ! 0) = 0
           \<and> sorted (map distance (arcLengthTable a))
           \<and> distance (last (arcLengthTable a)) = totalLength a
           \<and> (1 \<le> opt_arcLengthSegments opts \<longrightarrow> parameter (last (arcLengthTable a)) = 1)"
proof -
  define S where "S = opt_arcLengthSegments opts"
  from buildArcLengthTable_props [OF assms, of S]
  obtain tb where tb: "buildArcLengthTable pts S = Inr tb" "length tb = S + 1"
    "sorted (map distance tb)" "\<forall>k \<le> S. parameter (tb ! k) = real k / real S"
    "tb ! 0 = \<lparr>parameter = 0, distance = 0\<rparr>" by blast
  have ok: "table_ok tb" using built_table_ok [OF tb(1)] by simp
  have l1: "1 \<le> S \<longrightarrow> parameter (last tb) = 1"
    using ok tb(2) by (simp add: table_ok_def)
  obtain a where a: "new_CurveAnimator pts opts = Inr a" "arcLengthTable a = tb"
    "totalLength a = distance (last tb)"
    using tb(1) by (simp add: new_CurveAnimator_def S_def)
  show ?thesis
    unfolding S_def [symmetric] using a tb l1 by (intro exI [of _ a]) simp
qed

theorem arcLengthTable_shape_witness:
  "2 \<le> length scenario_points
   \<and> new_CurveAnimator scenario_points scenario_options = Inr scenario
   \<and> length (arcLengthTable scenario) = 3 + 1
   \<and> parameter (arcLengthTable scenario ! 2) = 2 / 3
   \<and> parameter (last (arcLengthTable scenario)) = 1
   \<and> distance (last (arcLengthTable scenario)) = totalLength scenario"
proof -
  have two: "2 \<le> length scenario_points" by (simp add: scenario_points_def)
  have S: "opt_arcLengthSegments scenario_options = 3"
    by (simp add: scenario_options_def)
  from arcLengthTable_shape [OF two, of scenario_options]
  have "length (arcLengthTable scenario) = 3 + 1
        \<and> (\<forall>i \<le> 3. parameter (arcLengthTable scenario ! i) = real i / real 3)
        \<and> distance (last (arcLengthTable scenario)) = totalLength scenario
        \<and> parameter (last (arcLengthTable scenario)) = 1"
    unfolding S scenario_new by simp
  then show ?thesis using two scenario_new by simp
qed

text \<open>
  Claim C8, as amended. Constructing an animator from fewer than two control points
  fails at construction time, and no animator is returned. The failure is a TypeError:
  \<^verbatim>\<open>_buildArcLengthTable\<close> calls \<^verbatim>\<open>getPoint(0)\<close>, which reads
  \<^verbatim>\<open>pts[segment]\<close> at a negative index and then a coordinate of the
  \<^verbatim>\<open>undefined\<close> it gets.
\<close>

theorem constructor_rejects_few_points:
  assumes "length pts < 2"
  shows "new_CurveAnimator pts opts = Inl TypeError"
  using assms by (simp add: new_CurveAnimator_def buildArcLengthTable_few)

theorem constructor_rejects_few_points_witness:
  "length [Vector3 1 2 3] < 2 \<and> new_CurveAnimator [Vector3 1 2 3] default_options = Inl TypeError"
  using constructor_rejects_few_points [of "[Vector3 1 2 3]" default_options] by simp

text \<open>
  Claim C8 as stated has the construction fail with an invalid-configuration error. The
  constructor validates nothing; with a single control point, and with none, what it
  throws is the TypeError of the coordinate read.
\<close>

theorem constructor_error_kind_counterexample:
  "new_CurveAnimator [Vector3 1 2 3] default_options = Inl TypeError
   \<and> new_CurveAnimator [Vector3 1 2 3] default_options \<noteq> Inl InvalidConfiguration
   \<and> new_CurveAnimator [] default_options = Inl TypeError
   \<and> new_CurveAnimator [] default_options \<noteq> Inl InvalidConfiguration"
  by (simp add: new_CurveAnimator_def buildArcLengthTable_def getPoint_def js_index_def)

section \<open>Properties of the distance-to-parameter search\<close>

text \<open>
  Claim C2, as amended. On a constructed animator \<^verbatim>\<open>getParameterForDistance(d)\<close>
  returns 0 for \<open>d \<le> 0\<close>, returns 1 for \<open>d \<ge> totalLength\<close> when \<open>d > 0\<close>,
  always returns a number in \<open>[0, 1]\<close>, and is non-decreasing in \<open>d\<close>.
\<close>

theorem getParameterForDistance_contract:
  assumes "constructed a"
  shows "(d \<le> 0 \<longrightarrow> getParameterForDistance a d = Inr 0)
         \<and> (0 < d \<and> totalLength a \<le> d \<longrightarrow> getParameterForDistance a d = Inr 1)
         \<and> (\<exists>r. getParameterForDistance a d = Inr r \<and> 0 \<le> r \<and> r \<le> 1)
         \<and> (d \<le> d' \<longrightarrow>
               (\<exists>r r'. getParameterForDistance a d = Inr r
                  \<and> getParameterForDistance a d' = Inr r' \<and> r \<le> r'))"
  using gpfd_low [of d a] gpfd_high [of d a]
    gpfd_range [OF constructedD(1,2) [OF assms], of d]
    gpfd_mono [OF constructedD(1,2) [OF assms], of d d']
  by blast

theorem getParameterForDistance_contract_witness:
  "constructed scenario
   \<and> getParameterForDistance scenario (- 1) = Inr 0
   \<and> getParameterForDistance scenario 5 = Inr 1
   \<and> (\<exists>r r'. getParameterForDistance scenario (1 / 2) = Inr r
         \<and> getParameterForDistance scenario (3 / 2) = Inr r' \<and> r \<le> r')"
proof -
  have t: "totalLength scenario = 3" by (simp add: scenario_def)
  from getParameterForDistance_contract [OF scenario_constructed, of "- 1"]
  have "getParameterForDistance scenario (- 1) = Inr 0" by simp
  moreover from getParameterForDistance_contract [OF scenario_constructed, of 5]
  have "getParameterForDistance scenario 5 = Inr 1" by (simp add: t)
  moreover from getParameterForDistance_contract [OF scenario_constructed, of "1 / 2" "3 / 2"]
  have "\<exists>r r'. getParameterForDistance scenario (1 / 2) = Inr r
         \<and> getParameterForDistance scenario (3 / 2) = Inr r' \<and> r \<le> r'" by simp
  ultimately show ?thesis using scenario_constructed by simp
qed

text \<open>
  Claim C2 as stated also asks for 1 at every \<open>d \<ge> totalLength\<close>. On the degenerate
  course \<open>totalLength\<close> is 0, and the query \<open>d = 0\<close> meets the test of line 93 first:
  it returns 0.
\<close>

theorem getParameterForDistance_at_totalLength_counterexample:
  "new_CurveAnimator flat_points flat_options = Inr flat
   \<and> totalLength flat \<le> 0
   \<and> getParameterForDistance flat 0 = Inr 0
   \<and> getParameterForDistance flat 0 \<noteq> Inr 1"
  by (simp add: flat_new getParameterForDistance_def) (simp add: flat_def)




section \<open>Properties of playback\<close>

text \<open>
  Claim C3. In \<^verbatim>\<open>'train'\<close> mode, on an animator that is playing and not complete,
  when \<open>distanceTraveled + speed * dt\<close> stays strictly below \<open>totalLength\<close> (no wrap,
  no clamp), \<^verbatim>\<open>update(dt)\<close> returns a position and leaves \<open>distanceTraveled\<close>
  at exactly \<open>distanceTraveled + speed * dt\<close>.
\<close>

theorem distance_mode_constant_speed:
  assumes "constructed a" and "mode a = ''train''" and "isPlaying a" and "\<not> isComplete a"
    and "distanceTraveled a + speed a * dt < totalLength a"
  shows "\<exists>b pos. update a dt = Inr (b, Some pos)
           \<and> distanceTraveled b = distanceTraveled a + speed a * dt"
proof -
  obtain a' where a': "advance a dt = Inr a'"
    using advance_train_total [OF assms(1,2)] assms(5) by blast
  have d: "distanceTraveled a' = distanceTraveled a + speed a * dt"
  proof (cases "loop a")
    case True
    from advance_train_loop(1) [OF assms(1,2) True a'] assms(5)
    show ?thesis by (simp add: wrapped_def)
  next
    case False
    from advance_train_noloop [OF assms(1,2) False, of dt] a' assms(5)
    show ?thesis by (simp add: min_def)
  qed
  have "2 \<le> length (points a')"
    using constructedD(3) [OF assms(1)] advance_frame(1) [OF a'] by simp
  from update_playing [OF assms(3,4) a' this]
  obtain tg pos where "update a dt = Inr (a'\<lparr>target := tg\<rparr>, Some pos)" by blast
  then show ?thesis using d by simp
qed

theorem distance_mode_constant_speed_witness:
  "constructed (play scenario) \<and> mode (play scenario) = ''train''
   \<and> isPlaying (play scenario) \<and> isComplete (play scenario) = False
   \<and> distanceTraveled (play scenario) + speed (play scenario) * (3 / 2)
       < totalLength (play scenario)
   \<and> (\<exists>b pos. update (play scenario) (3 / 2) = Inr (b, Some pos)
         \<and> distanceTraveled b = 3 / 2)"
proof -
  have c: "constructed (play scenario)" by (simp add: play_constructed scenario_constructed)
  have f: "mode (play scenario) = ''train''" "isPlaying (play scenario)"
    "\<not> isComplete (play scenario)"
    "distanceTraveled (play scenario) + speed (play scenario) * (3 / 2)
       < totalLength (play scenario)"
    by (simp_all add: play_def scenario_def)
  from distance_mode_constant_speed [OF c f]
  have "\<exists>b pos. update (play scenario) (3 / 2) = Inr (b, Some pos)
         \<and> distanceTraveled b = 3 / 2"
    by (simp add: play_def scenario_def)
  then show ?thesis using c f by simp
qed



text \<open>
  Claim C4 has the counters of a looping animator within their bounds after every
  \<^verbatim>\<open>update(dt)\<close> with \<open>dt \<ge> 0\<close>: \<open>distanceTraveled\<close> at most
  \<open>totalLength\<close>, \<open>progress\<close> at most 1, the wrapped value the exact remainder.
  The wrap of line 142 divides by \<open>totalLength\<close> without a test for zero. On the
  looping course of two coincident control points, as the constructor and \<^verbatim>\<open>play()\<close>
  leave it, \<^verbatim>\<open>update(1)\<close> takes \<open>1 % 0\<close>, which is NaN, computes the progress
  NaN from it (line 105 divides by \<open>d1 - d0 = 0\<close>), and throws the TypeError of
  \<^verbatim>\<open>getPoint(NaN)\<close>; both counters are left NaN, which is neither at most
  \<open>totalLength\<close> nor at most 1, and no position is returned. (\<open>degenerate_update\<close>:
  the same for every \<open>dt \<ge> 0\<close>.)
\<close>

theorem degenerate_loop_updateN:
  "new_CurveAnimator flat_points flat_options = Inr flat
   \<and> degenerate = liftAnimator (play flat) \<and> loop degenerate
   \<and> updateN degenerate 1
       = (degenerate\<lparr>distanceTraveled := NaN, progress := NaN\<rparr>, Inl TypeError)
   \<and> interpolationDivisorN (degenerate\<lparr>distanceTraveled := NaN\<rparr>) NaN = Some 0
   \<and> \<not> jle (distanceTraveled (fst (updateN degenerate 1)))
           (Fin (totalLength (fst (updateN degenerate 1))))
   \<and> \<not> jle (progress (fst (updateN degenerate 1))) (Fin 1)"
proof -
  have u: "updateN degenerate 1
             = (degenerate\<lparr>distanceTraveled := NaN, progress := NaN\<rparr>, Inl TypeError)"
    by (rule degenerate_update) simp
  have d: "interpolationDivisorN (degenerate\<lparr>distanceTraveled := NaN\<rparr>) NaN = Some 0"
    by (rule degenerate_conversion_of_NaN) (simp add: degenerate_fields)
  show ?thesis
    unfolding u by (simp add: flat_new d degenerate_fields) (simp add: degenerate_def)
qed

text \<open>
  Claim C5. Without \<open>loop\<close>, an update of a playing, not complete animator returns a
  position and sets \<open>isComplete\<close> exactly when the advanced counter reaches its bound
  (\<open>totalLength \<le> distanceTraveled + speed * dt\<close> in \<^verbatim>\<open>'train'\<close> mode,
  \<open>1 \<le> progress + dt / duration\<close> otherwise); and an update of an animator that is
  not playing, or is complete, changes no field and returns no position.
\<close>

theorem completion_and_noop:
  "(constructed a \<and> \<not> loop a \<and> isPlaying a \<and> \<not> isComplete a
      \<and> (mode a = ''train'' \<or> duration a \<noteq> 0) \<longrightarrow>
      (\<exists>b pos. update a dt = Inr (b, Some pos)
         \<and> isComplete b
             = (if mode a = ''train'' then totalLength a \<le> distanceTraveled a + speed a * dt
                else 1 \<le> progress a + dt / duration a)))
   \<and> (\<not> isPlaying a \<or> isComplete a \<longrightarrow> update a dt = Inr (a, None))"
proof (intro conjI impI)
  assume h: "constructed a \<and> \<not> loop a \<and> isPlaying a \<and> \<not> isComplete a
      \<and> (mode a = ''train'' \<or> duration a \<noteq> 0)"
  then have c: "constructed a" and l: "\<not> loop a" and p: "isPlaying a"
    and nc: "\<not> isComplete a" and md: "mode a = ''train'' \<or> duration a \<noteq> 0" by simp_all
  have "\<exists>a'. advance a dt = Inr a'
          \<and> isComplete a'
              = (if mode a = ''train'' then totalLength a \<le> distanceTraveled a + speed a * dt
                 else 1 \<le> progress a + dt / duration a)"
  proof (cases "mode a = ''train''")
    case True
    from advance_train_noloop [OF c True l, of dt] nc True show ?thesis by auto
  next
    case False
    then have "duration a \<noteq> 0" using md by simp
    from advance_time [OF False this, of dt] nc l False show ?thesis by auto
  qed
  then obtain a' where a': "advance a dt = Inr a'"
    and ic: "isComplete a'
              = (if mode a = ''train'' then totalLength a \<le> distanceTraveled a + speed a * dt
                 else 1 \<le> progress a + dt / duration a)" by blast
  have "2 \<le> length (points a')"
    using constructedD(3) [OF c] advance_frame(1) [OF a'] by simp
  from update_playing [OF p nc a' this]
  obtain tg pos where "update a dt = Inr (a'\<lparr>target := tg\<rparr>, Some pos)" by blast
  then show "\<exists>b pos. update a dt = Inr (b, Some pos)
         \<and> isComplete b
             = (if mode a = ''train'' then totalLength a \<le> distanceTraveled a + speed a * dt
                else 1 \<le> progress a + dt / duration a)"
    using ic by simp
next
  assume "\<not> isPlaying a \<or> isComplete a"
  then show "update a dt = Inr (a, None)" by (rule update_noop)
qed

theorem completion_and_noop_witness:
  "constructed (timed\<lparr>progress := 1 / 2\<rparr>) \<and> loop (timed\<lparr>progress := 1 / 2\<rparr>) = False
   \<and> isPlaying (timed\<lparr>progress := 1 / 2\<rparr>)
   \<and> isComplete (timed\<lparr>progress := 1 / 2\<rparr>) = False
   \<and> duration (timed\<lparr>progress := 1 / 2\<rparr>) = 2
   \<and> (\<exists>b pos. update (timed\<lparr>progress := 1 / 2\<rparr>) 1 = Inr (b, Some pos) \<and> isComplete b)
   \<and> isComplete (timed\<lparr>progress := 1, isComplete := True\<rparr>)
   \<and> update (timed\<lparr>progress := 1, isComplete := True\<rparr>) 1
       = Inr (timed\<lparr>progress := 1, isComplete := True\<rparr>, None)"
proof -
  define half where "half = timed\<lparr>progress := 1 / 2\<rparr>"
  define fin where "fin = timed\<lparr>progress := 1, isComplete := True\<rparr>"
  have c: "constructed half"
    unfolding half_def by (rule timed_constructed)
  have f: "\<not> loop half" "isPlaying half" "\<not> isComplete half" "duration half = 2"
    "mode half \<noteq> ''train''" "progress half = 1 / 2"
    by (simp_all add: half_def timed_def play_def scenario_def)
  have g: "isComplete fin" by (simp add: fin_def)
  from completion_and_noop [of half 1] c f
  have "\<exists>b pos. update half 1 = Inr (b, Some pos) \<and> isComplete b" by simp
  moreover from completion_and_noop [of fin 1] g
  have "update fin 1 = Inr (fin, None)" by simp
  ultimately show ?thesis using c f g unfolding half_def fin_def by simp
qed

text \<open>
  Claim C9, as amended. \<^verbatim>\<open>resume()\<close> sets \<open>isPlaying\<close>: an animator that is
  not complete is Playing afterwards, whether it was Paused, Idle or Playing before, and
  a complete animator stays Complete.
\<close>

theorem resume_playbackState:
  "playbackState (resume a) = (if playbackState a = Complete then Complete else Playing)"
  by (simp add: playbackState_def resume_def)

text \<open>
  Claim C9 as stated makes \<^verbatim>\<open>resume()\<close> a no-op in the Idle state. The animator
  the constructor returns is Idle, with both counters at 0, and \<^verbatim>\<open>resume()\<close>
  takes it to Playing.
\<close>

theorem resume_from_idle_counterexample:
  "new_CurveAnimator scenario_points scenario_options = Inr scenario
   \<and> playbackState scenario = IdleOrPaused \<and> progress scenario = 0
   \<and> distanceTraveled scenario = 0
   \<and> playbackState (resume scenario) = Playing
   \<and> playbackState (resume scenario) \<noteq> playbackState scenario"
  by (simp add: scenario_new playbackState_def resume_def) (simp add: scenario_def)

text \<open>
  Claim C10. \<^verbatim>\<open>pause()\<close> and \<^verbatim>\<open>resume()\<close> write \<open>isPlaying\<close> and nothing
  else: progress, distance travelled, \<open>isComplete\<close>, the control points, the table and
  \<open>totalLength\<close> are unchanged, so pausing and then resuming keeps both counters;
  \<^verbatim>\<open>play()\<close> and \<^verbatim>\<open>reset()\<close> set them to 0.
\<close>

theorem pause_resume_frame:
  "progress (pause a) = progress a \<and> distanceTraveled (pause a) = distanceTraveled a
   \<and> isComplete (pause a) = isComplete a \<and> points (pause a) = points a
   \<and> arcLengthTable (pause a) = arcLengthTable a \<and> totalLength (pause a) = totalLength a
   \<and> progress (resume a) = progress a \<and> distanceTraveled (resume a) = distanceTraveled a
   \<and> isComplete (resume a) = isComplete a \<and> points (resume a) = points a
   \<and> arcLengthTable (resume a) = arcLengthTable a \<and> totalLength (resume a) = totalLength a
   \<and> pause a = a\<lparr>isPlaying := False\<rparr> \<and> resume a = a\<lparr>isPlaying := True\<rparr>
   \<and> progress (resume (pause a)) = progress a
   \<and> distanceTraveled (resume (pause a)) = distanceTraveled a
   \<and> progress (play a) = 0 \<and> distanceTraveled (play a) = 0
   \<and> progress (reset a) = 0 \<and> distanceTraveled (reset a) = 0"
  by (simp add: pause_def resume_def play_def reset_def)

end
